theory Spec2Isabelle
  imports Main "HOL-Library.Word"
begin

section \<open>Go values: bytes, integers, errors and panics\<close>

text \<open>
  A Go \<open>string\<close> and a Go \<open>[]byte\<close> are both sequences of bytes; bytes are modelled as
  \<open>char\<close> (8 bits), so both are HOL strings. \<open>int64\<close> is a 64-bit word read as two's
  complement (\<open>sint\<close>, \<open><s\<close>, \<open>\<le>s\<close>); its arithmetic wraps. The platform is taken to be
  a 64-bit little-endian one (\<open>int\<close> is 64 bits wide, \<open>memcpy\<close> into a scalar is a
  little-endian decode).
\<close>

type_synonym byte = char
type_synonym int64 = "64 word"

text \<open>The Go \<open>error\<close> values that the functions return.\<close>

datatype error =
    EOF
  | OpenError
  | SeekInvalid
  | FailedReadHeader
  | InvalidPlyFile
  | UnsupportedFormat
  | UnknownElement string
  | CantOffset int64

text \<open>Run-time panics (and the one unsafe write) that abort the call.\<close>

datatype panic =
    NilDereference
  | SliceBounds
  | SetNotAssignable
  | SetUnexported
  | MemoryOverrun

section \<open>Data model\<close>

text \<open>
  The structs of the source, field by field. Four fields are renamed, since two records
  cannot share a field name here: \<open>PName\<close> is \<open>property.Name\<close>, \<open>pfile\<close> is
  \<open>PlyFile.file\<close>, and \<open>roffset\<close> and \<open>relement\<close> are \<open>ElementReader.offset\<close> and
  \<open>ElementReader.element\<close>. The reader's \<open>file\<close> is the handle it shares with the
  \<open>PlyFile\<close>; it is passed to the reader's operations and returned by them. \<open>Size\<close> and
  \<open>PointByteSize\<close> are natural numbers: sizes come from the table below and are summed
  over the properties of one header.
\<close>

record property =
  Type :: string
  PName :: string
  Size :: nat

record element =
  Name :: string
  Count :: int64
  Properties :: "property list"

text \<open>\<open>Elements\<close> is a slice of pointers: an entry may be \<open>nil\<close> (\<open>None\<close>).\<close>

record header =
  Format :: string
  Comment :: string
  offset :: int64
  Elements :: "element option list"

text \<open>An open regular file: its bytes and the position of the handle.\<close>

record osfile =
  content :: "byte list"
  fpos :: nat

record PlyFile =
  pfile :: osfile
  headerStr :: string
  header :: header

section \<open>Property registry\<close>

definition propertySizes :: "(string \<times> nat) list" where
  "propertySizes =
     [(''char'', 1), (''uchar'', 1), (''short'', 2), (''ushort'', 2),
      (''int'', 4), (''uint'', 4), (''float'', 4), (''double'', 8)]"

definition propertySize :: "string \<Rightarrow> nat" where
  "propertySize t = (case map_of propertySizes t of Some sz \<Rightarrow> sz | None \<Rightarrow> 0)"

definition PointByteSize :: "element \<Rightarrow> nat" where
  "PointByteSize e = sum_list (map Size (Properties e))"

section \<open>The regular expressions of the header lines\<close>

definition newline :: char where
  "newline = CHR 0x0A"

definition is_digit :: "char \<Rightarrow> bool" where
  "is_digit c = (48 \<le> (of_char c :: nat) \<and> (of_char c :: nat) \<le> 57)"

definition is_word :: "char \<Rightarrow> bool" where
  "is_word c =
     (let n = (of_char c :: nat)
      in (48 \<le> n \<and> n \<le> 57) \<or> (65 \<le> n \<and> n \<le> 90) \<or> n = 95 \<or> (97 \<le> n \<and> n \<le> 122))"

fun strip_prefix :: "string \<Rightarrow> string \<Rightarrow> string option" where
  "strip_prefix [] s = Some s"
| "strip_prefix (p # ps) [] = None"
| "strip_prefix (p # ps) (c # cs) = (if p = c then strip_prefix ps cs else None)"

text \<open>
  \<open>^format (ascii|binary_little_endian).*\<close>: the line starts with \<open>format \<close> and one of the
  two tokens; the result is the captured token.
\<close>

definition match_format :: "string \<Rightarrow> string option" where
  "match_format line =
     (case strip_prefix ''format ascii'' line of
        Some _ \<Rightarrow> Some ''ascii''
      | None \<Rightarrow>
          (case strip_prefix ''format binary_little_endian'' line of
             Some _ \<Rightarrow> Some ''binary_little_endian''
           | None \<Rightarrow> None))"

text \<open>\<open>^comment (.*)\<close>: the capture is the rest of the line (\<open>.\<close> stops at a newline).\<close>

definition match_comment :: "string \<Rightarrow> string option" where
  "match_comment line =
     (case strip_prefix ''comment '' line of
        Some r \<Rightarrow> Some (takeWhile (\<lambda>c. c \<noteq> newline) r)
      | None \<Rightarrow> None)"

text \<open>
  \<open>^element (\w*) (\d*)\<close>: a space is no word character, so the greedy \<open>\w*\<close> is the longest
  run of word characters and must be followed by a space; \<open>\d*\<close> is the longest run of digits.
\<close>

definition match_element :: "string \<Rightarrow> (string \<times> string) option" where
  "match_element line =
     (case strip_prefix ''element '' line of
        None \<Rightarrow> None
      | Some r \<Rightarrow>
          (case dropWhile is_word r of
             [] \<Rightarrow> None
           | c # r' \<Rightarrow>
               if c = CHR '' '' then Some (takeWhile is_word r, takeWhile is_digit r')
               else None))"

definition type_tokens :: "string list" where
  "type_tokens =
     [''char'', ''uchar'', ''short'', ''ushort'', ''int'', ''uint'', ''float'', ''double'']"

text \<open>The alternation tries its alternatives from left to right, each followed by a space.\<close>

fun match_alt :: "string list \<Rightarrow> string \<Rightarrow> (string \<times> string) option" where
  "match_alt [] r = None"
| "match_alt (t # ts) r =
     (case strip_prefix (t @ '' '') r of
        Some r' \<Rightarrow> Some (t, r')
      | None \<Rightarrow> match_alt ts r)"

text \<open>\<open>^property (char|uchar|short|ushort|int|uint|float|double) (\w*)\<close>\<close>

definition match_property :: "string \<Rightarrow> (string \<times> string) option" where
  "match_property line =
     (case strip_prefix ''property '' line of
        None \<Rightarrow> None
      | Some r \<Rightarrow>
          (case match_alt type_tokens r of
             None \<Rightarrow> None
           | Some (t, r') \<Rightarrow> Some (t, takeWhile is_word r')))"

definition headerEnd :: string where
  "headerEnd = ''end_header''"

section \<open>Library functions used by the parser\<close>

text \<open>\<open>strings.Split(s, "\n")\<close>: one more piece than there are newlines.\<close>

fun split_lines :: "string \<Rightarrow> string list" where
  "split_lines [] = [[]]"
| "split_lines (c # cs) =
     (if c = newline then [] # split_lines cs
      else (case split_lines cs of
              [] \<Rightarrow> [[c]]
            | l # ls \<Rightarrow> (c # l) # ls))"

text \<open>
  \<open>strconv.Atoi\<close> on the capture of \<open>\d*\<close> (digits only), its error dropped: the empty
  string gives 0, a value beyond the largest \<open>int\<close> gives the largest \<open>int\<close>.
\<close>

definition digits_value :: "string \<Rightarrow> int" where
  "digits_value ds = foldl (\<lambda>n c. n * 10 + ((of_char c :: int) - 48)) 0 ds"

definition Atoi :: "string \<Rightarrow> int64" where
  "Atoi s =
     (if s = [] then 0
      else if 2 ^ 63 \<le> digits_value s then 0x7FFFFFFFFFFFFFFF
      else of_int (digits_value s))"

text \<open>\<open>strings.Index\<close>: the first position at which the pattern occurs.\<close>

fun Index :: "string \<Rightarrow> string \<Rightarrow> nat option" where
  "Index [] p = (if p = [] then Some 0 else None)"
| "Index (c # cs) p =
     (if strip_prefix p (c # cs) \<noteq> None then Some 0
      else map_option Suc (Index cs p))"

section \<open>Header parsing\<close>

text \<open>
  The loop of \<open>parseHeader\<close> holds \<open>currElement\<close>, a pointer to the element under
  construction, and appends that pointer to \<open>Elements\<close>; the elements it allocates live in
  a store (\<open>heap\<close>), addressed by their index, so that a property line after the pointer was
  appended still changes the appended element.
\<close>

record pstate =
  pFormat :: string
  pComment :: string
  pElements :: "nat option list"
  heap :: "element list"
  currElement :: "nat option"

definition add_property :: "pstate \<Rightarrow> string \<Rightarrow> string \<Rightarrow> panic + pstate" where
  "add_property s ty nm =
     (case currElement s of
        None \<Rightarrow> Inl NilDereference
      | Some a \<Rightarrow>
          Inr (s\<lparr>heap := (heap s)[a := (heap s ! a)\<lparr>Properties :=
                 Properties (heap s ! a) @ [\<lparr>Type = ty, PName = nm, Size = propertySize ty\<rparr>]\<rparr>]\<rparr>))"

definition close_header :: "pstate \<Rightarrow> string \<Rightarrow> pstate" where
  "close_header s line =
     (if line = headerEnd then s\<lparr>pElements := pElements s @ [currElement s]\<rparr> else s)"

definition parse_line :: "pstate \<Rightarrow> string \<Rightarrow> panic + pstate" where
  "parse_line s line =
     (case match_format line of
        Some tok \<Rightarrow> Inr (s\<lparr>pFormat := tok\<rparr>)
      | None \<Rightarrow>
     (case match_comment line of
        Some c \<Rightarrow> Inr (s\<lparr>pComment := c\<rparr>)
      | None \<Rightarrow>
     (case match_element line of
        Some (nm, cnt) \<Rightarrow>
          Inr (s\<lparr>pElements :=
                   (if currElement s \<noteq> None then pElements s @ [currElement s]
                    else pElements s),
                 heap := heap s @ [\<lparr>Name = nm, Count = Atoi cnt, Properties = []\<rparr>],
                 currElement := Some (length (heap s))\<rparr>)
      | None \<Rightarrow>
     (case match_property line of
        Some (ty, nm) \<Rightarrow>
          (case add_property s ty nm of
             Inl p \<Rightarrow> Inl p
           | Inr s' \<Rightarrow> Inr (close_header s' line))
      | None \<Rightarrow> Inr (close_header s line)))))"

fun parse_lines :: "pstate \<Rightarrow> string list \<Rightarrow> panic + pstate" where
  "parse_lines s [] = Inr s"
| "parse_lines s (l # ls) =
     (case parse_line s l of
        Inl p \<Rightarrow> Inl p
      | Inr s' \<Rightarrow> parse_lines s' ls)"

definition parseHeader :: "PlyFile \<Rightarrow> panic + PlyFile" where
  "parseHeader f =
     (case parse_lines
             \<lparr>pFormat = Format (header f), pComment = Comment (header f),
              pElements = [], heap = [], currElement = None\<rparr>
             (split_lines (headerStr f)) of
        Inl p \<Rightarrow> Inl p
      | Inr s \<Rightarrow>
          Inr (f\<lparr>header := (header f)\<lparr>
                 Format := pFormat s,
                 Comment := pComment s,
                 Elements := Elements (header f) @
                             map (map_option (\<lambda>a. heap s ! a)) (pElements s)\<rparr>\<rparr>))"

section \<open>The byte source\<close>

text \<open>
  \<open>Seek(off, 0)\<close> on a regular file: a negative offset is refused, any other offset
  (also one beyond the end) is accepted.
\<close>

definition file_Seek :: "osfile \<Rightarrow> int64 \<Rightarrow> error + osfile" where
  "file_Seek f off =
     (if sint off < 0 then Inl SeekInvalid else Inr (f\<lparr>fpos := nat (sint off)\<rparr>))"

text \<open>
  \<open>Read(buf)\<close> with a buffer of \<open>k\<close> bytes: nothing is read into an empty buffer; at the
  end of the file the error is \<open>io.EOF\<close>; otherwise the bytes that are there, at most \<open>k\<close>,
  are delivered and the position moves behind them.
\<close>

definition file_Read :: "osfile \<Rightarrow> nat \<Rightarrow> (error + byte list) \<times> osfile" where
  "file_Read f k =
     (if k = 0 then (Inr [], f)
      else if length (content f) \<le> fpos f then (Inl EOF, f)
      else (Inr (take k (drop (fpos f) (content f))),
            f\<lparr>fpos := fpos f + length (take k (drop (fpos f) (content f)))\<rparr>))"

section \<open>Reading the header and opening a file\<close>

function readHeader_loop ::
  "osfile \<Rightarrow> string \<Rightarrow> panic + (error + (osfile \<times> string \<times> int64))" where
  "readHeader_loop f hs =
     (case file_Read f 100 of
        (Inl e, f') \<Rightarrow> Inr (Inl FailedReadHeader)
      | (Inr chunk, f') \<Rightarrow>
          (case Index (hs @ chunk) ''end_header'' of
             None \<Rightarrow> readHeader_loop f' (hs @ chunk)
           | Some p \<Rightarrow>
               if length (hs @ chunk) < p + length ''end_header'' + 1 then Inl SliceBounds
               else Inr (Inr (f', take (p + length ''end_header'' + 1) (hs @ chunk),
                              of_nat (p + length ''end_header'' + 1)))))"
  by pat_completeness auto
termination
  by (relation "measure (\<lambda>(f, hs). length (content f) - fpos f)")
     (auto simp: file_Read_def split: if_splits)

declare readHeader_loop.simps [simp del]

definition readHeader :: "PlyFile \<Rightarrow> panic + (error + PlyFile)" where
  "readHeader f =
     (case readHeader_loop (pfile f) [] of
        Inl p \<Rightarrow> Inl p
      | Inr (Inl e) \<Rightarrow> Inr (Inl e)
      | Inr (Inr (fl, hs, off)) \<Rightarrow>
          if hs = [] then Inr (Inl InvalidPlyFile)
          else Inr (Inr (f\<lparr>pfile := fl, headerStr := hs,
                          header := (header f)\<lparr>offset := off\<rparr>\<rparr>)))"

text \<open>The file system is a map from names to file contents.\<close>

definition Open :: "(string \<rightharpoonup> byte list) \<Rightarrow> string \<Rightarrow> panic + (error + PlyFile)" where
  "Open fs name =
     (case fs name of
        None \<Rightarrow> Inr (Inl OpenError)
      | Some bytes \<Rightarrow>
          (case readHeader
                  \<lparr>pfile = \<lparr>content = bytes, fpos = 0\<rparr>, headerStr = [],
                   header = \<lparr>Format = [], Comment = [], offset = 0, Elements = []\<rparr>\<rparr> of
             Inl p \<Rightarrow> Inl p
           | Inr (Inl e) \<Rightarrow> Inr (Inl e)
           | Inr (Inr ply) \<Rightarrow>
               (case parseHeader ply of
                  Inl p \<Rightarrow> Inl p
                | Inr ply' \<Rightarrow>
                    if Format (header ply') \<noteq> ''binary_little_endian''
                    then Inr (Inl UnsupportedFormat)
                    else Inr (Inr ply'))))"

section \<open>Schema queries and offsets\<close>

fun has_loop :: "element option list \<Rightarrow> string \<Rightarrow> panic + bool" where
  "has_loop [] name = Inr False"
| "has_loop (None # es) name = Inl NilDereference"
| "has_loop (Some e # es) name = (if Name e = name then Inr True else has_loop es name)"

definition Has :: "PlyFile \<Rightarrow> string \<Rightarrow> panic + bool" where
  "Has f name = has_loop (Elements (header f)) name"

fun getElement_loop :: "element option list \<Rightarrow> string \<Rightarrow> panic + element option" where
  "getElement_loop [] name = Inr None"
| "getElement_loop (None # es) name = Inl NilDereference"
| "getElement_loop (Some e # es) name =
     (if Name e = name then Inr (Some e) else getElement_loop es name)"

definition getElement :: "PlyFile \<Rightarrow> string \<Rightarrow> panic + element option" where
  "getElement f name = getElement_loop (Elements (header f)) name"

fun offset_loop :: "element option list \<Rightarrow> string \<Rightarrow> int64 \<Rightarrow> panic + int64" where
  "offset_loop [] name acc = Inr acc"
| "offset_loop (None # es) name acc = Inl NilDereference"
| "offset_loop (Some e # es) name acc =
     (if Name e \<noteq> name
      then offset_loop es name (acc + Count e * of_nat (PointByteSize e))
      else Inr acc)"

definition getElementOffset :: "PlyFile \<Rightarrow> string \<Rightarrow> panic + int64" where
  "getElementOffset f name =
     (case Has f name of
        Inl p \<Rightarrow> Inl p
      | Inr found \<Rightarrow>
          if \<not> found then Inr (- 1)
          else offset_loop (Elements (header f)) name 0)"

text \<open>The reader's \<open>element\<close> is the pointer that \<open>getElement\<close> returns.\<close>

record ElementReader =
  pos :: int64
  roffset :: int64
  relement :: "element option"

definition GetElementReader :: "PlyFile \<Rightarrow> string \<Rightarrow> panic + (error + ElementReader)" where
  "GetElementReader f name =
     (case Has f name of
        Inl p \<Rightarrow> Inl p
      | Inr found \<Rightarrow>
          if \<not> found then Inr (Inl (UnknownElement name))
          else
            (case getElementOffset f name of
               Inl p \<Rightarrow> Inl p
             | Inr off \<Rightarrow>
                 (case getElement f name of
                    Inl p \<Rightarrow> Inl p
                  | Inr e \<Rightarrow>
                      Inr (Inr \<lparr>pos = 0, roffset = offset (header f) + off,
                                relement = e\<rparr>))))"

section \<open>Element reader: the cursor\<close>

definition Seek :: "ElementReader \<Rightarrow> int64 \<Rightarrow> panic + (error option \<times> ElementReader)" where
  "Seek r p =
     (if sint p < 0 then Inr (Some (CantOffset p), r)
      else
        (case relement r of
           None \<Rightarrow> Inl NilDereference
         | Some e \<Rightarrow>
             if sint (Count e) < sint p then Inr (Some (CantOffset p), r)
             else Inr (None, r\<lparr>pos := p\<rparr>)))"

definition Reset :: "ElementReader \<Rightarrow> panic + (error option \<times> ElementReader)" where
  "Reset r = Seek r 0"

section \<open>The target of a decode\<close>

text \<open>
  The caller passes a pointer; what it points to is seen through reflection. A struct is
  the list of its fields, each with the value of its \<open>ply\<close> tag (empty when the field has
  none), whether it is exported, and its current value; the constructor of the value is the
  field's Go type. The fields are of the sized numeric types; \<open>float32\<close> and \<open>float64\<close>
  values are kept as their bit patterns. A pointer to anything but a struct is \<open>OtherPtr\<close>.
\<close>

datatype gotype =
  TUint8 | TInt8 | TInt16 | TUint16 | TInt32 | TUint32 | TInt64 | TUint64 | TFloat32 | TFloat64

datatype govalue =
    VUint8 "8 word"
  | VInt8 "8 word"
  | VInt16 "16 word"
  | VUint16 "16 word"
  | VInt32 "32 word"
  | VUint32 "32 word"
  | VInt64 "64 word"
  | VUint64 "64 word"
  | VFloat32 "32 word"
  | VFloat64 "64 word"

fun typeof :: "govalue \<Rightarrow> gotype" where
  "typeof (VUint8 _) = TUint8"
| "typeof (VInt8 _) = TInt8"
| "typeof (VInt16 _) = TInt16"
| "typeof (VUint16 _) = TUint16"
| "typeof (VInt32 _) = TInt32"
| "typeof (VUint32 _) = TUint32"
| "typeof (VInt64 _) = TInt64"
| "typeof (VUint64 _) = TUint64"
| "typeof (VFloat32 _) = TFloat32"
| "typeof (VFloat64 _) = TFloat64"

record field =
  tag :: string
  exported :: bool
  fvalue :: govalue

datatype target = StructPtr "field list" | OtherPtr

section \<open>Record decoder\<close>

text \<open>\<open>buf[lo:hi]\<close> with \<open>lo \<le> hi\<close>: a panic when \<open>hi\<close> is beyond the buffer.\<close>

definition slice :: "byte list \<Rightarrow> nat \<Rightarrow> nat \<Rightarrow> panic + byte list" where
  "slice buf lo hi =
     (if length buf < hi then Inl SliceBounds else Inr (take (hi - lo) (drop lo buf)))"

text \<open>
  \<open>memcpy(bits, &v)\<close> for a zero variable \<open>v\<close> of \<open>w\<close> bytes: the bytes of \<open>v\<close> afterwards.
  More than \<open>w\<close> bytes would be written outside \<open>v\<close>.
\<close>

definition memcpy :: "byte list \<Rightarrow> nat \<Rightarrow> panic + byte list" where
  "memcpy bits w =
     (if w < length bits then Inl MemoryOverrun
      else Inr (bits @ replicate (w - length bits) (CHR 0x00)))"

text \<open>The value of a little-endian byte sequence.\<close>

fun le_word :: "byte list \<Rightarrow> 'a::len word" where
  "le_word [] = 0"
| "le_word (b # bs) = of_char b + 256 * le_word bs"

text \<open>
  The \<open>switch prop.Type\<close>: the Go type of the local variable \<open>v\<close> of each case; there is
  no case for any other type name.
\<close>

definition scalar_case :: "string \<Rightarrow> gotype option" where
  "scalar_case ty =
     (if ty = ''char'' \<or> ty = ''uchar'' then Some TUint8
      else if ty = ''short'' then Some TInt16
      else if ty = ''ushort'' then Some TUint16
      else if ty = ''int'' then Some TInt32
      else if ty = ''uint'' then Some TUint32
      else if ty = ''float'' then Some TFloat32
      else if ty = ''double'' then Some TFloat64
      else None)"

text \<open>The size in bytes of a variable of a Go type, and the value its bytes stand for.\<close>

fun width :: "gotype \<Rightarrow> nat" where
  "width TUint8 = 1"
| "width TInt8 = 1"
| "width TInt16 = 2"
| "width TUint16 = 2"
| "width TInt32 = 4"
| "width TUint32 = 4"
| "width TInt64 = 8"
| "width TUint64 = 8"
| "width TFloat32 = 4"
| "width TFloat64 = 8"

fun from_bytes :: "gotype \<Rightarrow> byte list \<Rightarrow> govalue" where
  "from_bytes TUint8 d = VUint8 (le_word d)"
| "from_bytes TInt8 d = VInt8 (le_word d)"
| "from_bytes TInt16 d = VInt16 (le_word d)"
| "from_bytes TUint16 d = VUint16 (le_word d)"
| "from_bytes TInt32 d = VInt32 (le_word d)"
| "from_bytes TUint32 d = VUint32 (le_word d)"
| "from_bytes TInt64 d = VInt64 (le_word d)"
| "from_bytes TUint64 d = VUint64 (le_word d)"
| "from_bytes TFloat32 d = VFloat32 (le_word d)"
| "from_bytes TFloat64 d = VFloat64 (le_word d)"

text \<open>\<open>Value.Set\<close>: the field must be settable and the value's type must be the field's.\<close>

definition reflect_Set :: "field \<Rightarrow> govalue \<Rightarrow> panic + field" where
  "reflect_Set f v =
     (if \<not> exported f then Inl SetUnexported
      else if typeof v \<noteq> typeof (fvalue f) then Inl SetNotAssignable
      else Inr (f\<lparr>fvalue := v\<rparr>))"

text \<open>The body of the inner loop for a field whose tag is the property's name.\<close>

definition store_field :: "property \<Rightarrow> byte list \<Rightarrow> nat \<Rightarrow> field \<Rightarrow> panic + field" where
  "store_field p buf off f =
     (case scalar_case (Type p) of
        None \<Rightarrow> Inr f
      | Some T \<Rightarrow>
          (case slice buf off (off + Size p) of
             Inl e \<Rightarrow> Inl e
           | Inr bits \<Rightarrow>
               (case memcpy bits (width T) of
                  Inl e \<Rightarrow> Inl e
                | Inr d \<Rightarrow> reflect_Set f (from_bytes T d))))"

fun set_fields :: "property \<Rightarrow> byte list \<Rightarrow> nat \<Rightarrow> field list \<Rightarrow> panic + field list" where
  "set_fields p buf off [] = Inr []"
| "set_fields p buf off (f # fs) =
     (case (if tag f = PName p then store_field p buf off f else Inr f) of
        Inl e \<Rightarrow> Inl e
      | Inr f' \<Rightarrow>
          (case set_fields p buf off fs of
             Inl e \<Rightarrow> Inl e
           | Inr fs' \<Rightarrow> Inr (f' # fs')))"

fun decode_props :: "property list \<Rightarrow> byte list \<Rightarrow> nat \<Rightarrow> target \<Rightarrow> panic + target" where
  "decode_props [] buf off t = Inr t"
| "decode_props (p # ps) buf off t =
     (case t of
        OtherPtr \<Rightarrow> decode_props ps buf (off + Size p) t
      | StructPtr fs \<Rightarrow>
          (case set_fields p buf off fs of
             Inl e \<Rightarrow> Inl e
           | Inr fs' \<Rightarrow> decode_props ps buf (off + Size p) (StructPtr fs')))"

section \<open>Element reader: reading records\<close>

text \<open>
  The result of a call is a panic, or the returned error or value together with the
  reader, the shared file handle and the target as the call leaves them. The byte count
  that \<open>Read\<close> returns is dropped and of its errors only \<open>io.EOF\<close> ends the call: the
  buffer is decoded as far as it was filled, the rest of it being zero.
\<close>

definition ReadNext ::
  "ElementReader \<Rightarrow> osfile \<Rightarrow> target \<Rightarrow>
     panic + ((error + int64) \<times> ElementReader \<times> osfile \<times> target)" where
  "ReadNext r f t =
     (case relement r of
        None \<Rightarrow> Inl NilDereference
      | Some e \<Rightarrow>
          (case file_Seek f (roffset r + pos r * of_nat (PointByteSize e)) of
             Inl err \<Rightarrow> Inr (Inl err, r, f, t)
           | Inr f1 \<Rightarrow>
               if sint (Count e) \<le> sint (pos r) then Inr (Inl EOF, r, f1, t)
               else
                 (case file_Read f1 (PointByteSize e) of
                    (Inl err, f2) \<Rightarrow>
                      if err = EOF then Inr (Inl EOF, r, f2, t)
                      else
                        (case decode_props (Properties e)
                                (replicate (PointByteSize e) (CHR 0x00)) 0 t of
                           Inl pn \<Rightarrow> Inl pn
                         | Inr t' \<Rightarrow> Inr (Inr (pos r + 1), r\<lparr>pos := pos r + 1\<rparr>, f2, t'))
                  | (Inr bs, f2) \<Rightarrow>
                      (case decode_props (Properties e)
                              (bs @ replicate (PointByteSize e - length bs) (CHR 0x00)) 0 t of
                         Inl pn \<Rightarrow> Inl pn
                       | Inr t' \<Rightarrow> Inr (Inr (pos r + 1), r\<lparr>pos := pos r + 1\<rparr>, f2, t')))))"

definition ReadAt ::
  "ElementReader \<Rightarrow> int64 \<Rightarrow> osfile \<Rightarrow> target \<Rightarrow>
     panic + (error option \<times> ElementReader \<times> osfile \<times> target)" where
  "ReadAt r p f t =
     (case Seek r p of
        Inl pn \<Rightarrow> Inl pn
      | Inr (Some err, r1) \<Rightarrow> Inr (Some err, r1, f, t)
      | Inr (None, r1) \<Rightarrow>
          (case ReadNext r1 f t of
             Inl pn \<Rightarrow> Inl pn
           | Inr (Inl err, r2, f2, t2) \<Rightarrow> Inr (Some err, r2, f2, t2)
           | Inr (Inr n, r2, f2, t2) \<Rightarrow> Inr (None, r2\<lparr>pos := pos r\<rparr>, f2, t2)))"

definition ReadFirst ::
  "ElementReader \<Rightarrow> osfile \<Rightarrow> target \<Rightarrow>
     panic + (error option \<times> ElementReader \<times> osfile \<times> target)" where
  "ReadFirst r f t = ReadAt r 0 f t"

section \<open>Callers: reading a whole element\<close>

text \<open>
  The two ways of reading the records of an element. \<open>next_n n\<close> calls \<open>ReadNext\<close>
  \<open>n\<close> times on one target, which each call overwrites; \<open>at_n n i\<close> calls \<open>ReadAt\<close> for the
  positions \<open>i\<close>, \<open>i + 1\<close>, ... (\<open>n\<close> of them), each time on the target \<open>t0\<close> as it was given.
  Both collect what each call produced, the target after a successful call, and stop at the
  first call that fails.
\<close>

fun next_n :: "nat \<Rightarrow> ElementReader \<Rightarrow> osfile \<Rightarrow> target \<Rightarrow> (panic + error + target) list" where
  "next_n 0 r f t = []"
| "next_n (Suc n) r f t =
     (case ReadNext r f t of
        Inl pn \<Rightarrow> [Inl pn]
      | Inr (Inl err, r', f', t') \<Rightarrow> [Inr (Inl err)]
      | Inr (Inr c, r', f', t') \<Rightarrow> Inr (Inr t') # next_n n r' f' t')"

fun at_n ::
  "nat \<Rightarrow> nat \<Rightarrow> ElementReader \<Rightarrow> osfile \<Rightarrow> target \<Rightarrow> (panic + error + target) list" where
  "at_n 0 i r f t0 = []"
| "at_n (Suc n) i r f t0 =
     (case ReadAt r (of_nat i) f t0 of
        Inl pn \<Rightarrow> [Inl pn]
      | Inr (Some err, r', f', t') \<Rightarrow> [Inr (Inl err)]
      | Inr (None, r', f', t') \<Rightarrow> Inr (Inr t') # at_n n (Suc i) r' f' t0)"

section \<open>Notions used to state properties of the decoder\<close>

text \<open>
  A field accepts a property when storing the property's value into it goes through: the
  property's bytes fit the Go type the property is read as, the field is settable, and the
  field has exactly that type. A target is bindable to a property list when each of its
  fields accepts every property whose name is the field's tag.
\<close>

definition accepts :: "property \<Rightarrow> field \<Rightarrow> bool" where
  "accepts p f =
     (case scalar_case (Type p) of
        None \<Rightarrow> True
      | Some T \<Rightarrow> Size p \<le> width T \<and> exported f \<and> typeof (fvalue f) = T)"

definition bindable :: "property list \<Rightarrow> field list \<Rightarrow> bool" where
  "bindable ps fs = (\<forall>p\<in>set ps. \<forall>f\<in>set fs. tag f = PName p \<longrightarrow> accepts p f)"

text \<open>
  What one property does to one field, and what a property list does to it, when nothing
  fails: the running offset moves on by the size of every property, bound or not.
\<close>

definition step_field :: "property \<Rightarrow> byte list \<Rightarrow> nat \<Rightarrow> field \<Rightarrow> field" where
  "step_field p buf off f =
     (if tag f = PName p
      then (case scalar_case (Type p) of
              None \<Rightarrow> f
            | Some T \<Rightarrow> f\<lparr>fvalue := from_bytes T (take (Size p) (drop off buf))\<rparr>)
      else f)"

fun decoded :: "property list \<Rightarrow> byte list \<Rightarrow> nat \<Rightarrow> field \<Rightarrow> field" where
  "decoded [] buf off f = f"
| "decoded (p # ps) buf off f = decoded ps buf (off + Size p) (step_field p buf off f)"

text \<open>
  A tag is bound when a property with a decodable type has it as its name. Two fields have
  the same shape when they differ at most in their value; two targets agree when their
  fields have pairwise the same shape and are equal wherever the tag is not bound.
\<close>

definition bound :: "property list \<Rightarrow> string \<Rightarrow> bool" where
  "bound ps tg = (\<exists>p\<in>set ps. PName p = tg \<and> scalar_case (Type p) \<noteq> None)"

definition same_shape :: "field \<Rightarrow> field \<Rightarrow> bool" where
  "same_shape f g =
     (tag f = tag g \<and> exported f = exported g \<and> typeof (fvalue f) = typeof (fvalue g))"

definition agree :: "property list \<Rightarrow> field list \<Rightarrow> field list \<Rightarrow> bool" where
  "agree ps fs gs = list_all2 (\<lambda>f g. same_shape f g \<and> (\<not> bound ps (tag f) \<longrightarrow> f = g)) fs gs"

fun tagree :: "property list \<Rightarrow> target \<Rightarrow> target \<Rightarrow> bool" where
  "tagree ps (StructPtr fs) (StructPtr gs) = agree ps fs gs"
| "tagree ps OtherPtr OtherPtr = True"
| "tagree ps _ _ = False"

section \<open>Sample data\<close>

text \<open>
  The zero value of the struct \<open>Point\<close> of the source, a target of the caller's own with
  its fields in another order, no field for \<open>green\<close> and an untagged unexported field, an
  element with the properties of \<open>Point\<close>, and a body of two of its records.
\<close>

definition Point :: "field list" where
  "Point =
     [\<lparr>tag = ''x'', exported = True, fvalue = VFloat64 0\<rparr>,
      \<lparr>tag = ''y'', exported = True, fvalue = VFloat64 0\<rparr>,
      \<lparr>tag = ''z'', exported = True, fvalue = VFloat64 0\<rparr>,
      \<lparr>tag = ''red'', exported = True, fvalue = VUint8 0\<rparr>,
      \<lparr>tag = ''green'', exported = True, fvalue = VUint8 0\<rparr>,
      \<lparr>tag = ''blue'', exported = True, fvalue = VUint8 0\<rparr>]"

definition NoGreen :: "field list" where
  "NoGreen =
     [\<lparr>tag = ''blue'', exported = True, fvalue = VUint8 0\<rparr>,
      \<lparr>tag = ''x'', exported = True, fvalue = VFloat64 0\<rparr>,
      \<lparr>tag = ''y'', exported = True, fvalue = VFloat64 0\<rparr>,
      \<lparr>tag = ''z'', exported = True, fvalue = VFloat64 0\<rparr>,
      \<lparr>tag = ''red'', exported = True, fvalue = VUint8 0\<rparr>,
      \<lparr>tag = [], exported = False, fvalue = VInt64 42\<rparr>]"

definition vertex :: element where
  "vertex =
     \<lparr>Name = ''vertex'', Count = 2, Properties =
        [\<lparr>Type = ''double'', PName = ''x'', Size = 8\<rparr>,
         \<lparr>Type = ''double'', PName = ''y'', Size = 8\<rparr>,
         \<lparr>Type = ''double'', PName = ''z'', Size = 8\<rparr>,
         \<lparr>Type = ''uchar'', PName = ''red'', Size = 1\<rparr>,
         \<lparr>Type = ''uchar'', PName = ''green'', Size = 1\<rparr>,
         \<lparr>Type = ''uchar'', PName = ''blue'', Size = 1\<rparr>]\<rparr>"

definition body :: "byte list" where
  "body =
     [
      CHR 0x00, CHR 0x00, CHR 0x00, CHR 0x00, CHR 0x00, CHR 0x00, CHR 0xF0, CHR 0x3F, CHR 0x00,
      CHR 0x00, CHR 0x00, CHR 0x00, CHR 0x00, CHR 0x00, CHR 0x00, CHR 0x40, CHR 0x00, CHR 0x00,
      CHR 0x00, CHR 0x00, CHR 0x00, CHR 0x00, CHR 0xF0, CHR 0xBF, CHR 0xFF, CHR 0x80, CHR 0x07,
      CHR 0x00, CHR 0x00, CHR 0x00, CHR 0x00, CHR 0x00, CHR 0x00, CHR 0xE0, CHR 0x3F, CHR 0x00,
      CHR 0x00, CHR 0x00, CHR 0x00, CHR 0x00, CHR 0x00, CHR 0x00, CHR 0x00, CHR 0x00, CHR 0x00,
      CHR 0x00, CHR 0x00, CHR 0x00, CHR 0x00, CHR 0x08, CHR 0x40, CHR 0x01, CHR 0x02, CHR 0x03]"

section \<open>Evaluation of the definitions on concrete inputs\<close>

lemmas parse_eval =
  parseHeader_def parse_line_def match_format_def match_comment_def match_element_def
  match_property_def type_tokens_def close_header_def headerEnd_def newline_def
  add_property_def is_word_def is_digit_def Atoi_def digits_value_def
  propertySize_def propertySizes_def

lemmas open_eval =
  Open_def readHeader_def readHeader_loop.simps file_Read_def parse_eval

section \<open>Prefixes and the first occurrence of a pattern\<close>

lemma strip_prefix_Some_iff: "strip_prefix p s = Some r \<longleftrightarrow> s = p @ r"
  by (induction p s rule: strip_prefix.induct) auto

lemma strip_prefix_None_iff: "strip_prefix p s = None \<longleftrightarrow> (\<forall>r. s \<noteq> p @ r)"
  using strip_prefix_Some_iff [of p s] by (cases "strip_prefix p s") auto

lemma Index_at_prefix: "Index (p @ r) p = Some 0"
proof (cases "p @ r")
  case Nil
  then show ?thesis by simp
next
  case (Cons a list)
  then have "strip_prefix p (a # list) = Some r"
    by (simp only: strip_prefix_Some_iff)
  then show ?thesis
    by (simp only: Cons Index.simps) simp
qed

lemma Index_take:
  "Index s p = Some i \<Longrightarrow> i + length p \<le> n \<Longrightarrow> Index (take n s) p = Some i"
proof (induction s arbitrary: i n)
  case Nil
  then show ?case by (simp split: if_splits)
next
  case (Cons c cs)
  show ?case
  proof (cases "strip_prefix p (c # cs)")
    case (Some r)
    then have eq: "c # cs = p @ r" by (simp add: strip_prefix_Some_iff)
    from Some Cons.prems have "i = 0" by simp
    with Cons.prems have "length p \<le> n" by simp
    then have "take n (c # cs) = p @ take (n - length p) r"
      by (simp add: eq)
    with \<open>i = 0\<close> show ?thesis
      by (simp only: Index_at_prefix)
  next
    case None
    with Cons.prems obtain j where j: "Index cs p = Some j" "i = Suc j"
      by auto
    with Cons.prems obtain m where m: "n = Suc m" "j + length p \<le> m"
      by (cases n) auto
    have "strip_prefix p (c # take m cs) = None"
    proof (rule ccontr)
      assume "strip_prefix p (c # take m cs) \<noteq> None"
      then obtain r where "c # take m cs = p @ r"
        by (auto simp: strip_prefix_Some_iff)
      then have "c # cs = p @ (r @ drop m cs)"
        by (metis append_Cons append_assoc append_take_drop_id)
      with None show False by (simp add: strip_prefix_None_iff)
    qed
    with Cons.IH [OF j(1) m(2)] j m show ?thesis by simp
  qed
qed

section \<open>Reading the header\<close>

lemma readHeader_loop_error:
  "readHeader_loop f hs = Inr (Inl e) \<Longrightarrow> e = FailedReadHeader"
proof (induction f hs rule: readHeader_loop.induct)
  case (1 f hs)
  from "1.prems" show ?case
    by (subst (asm) readHeader_loop.simps)
       (auto split: prod.splits sum.splits option.splits if_splits dest: "1.IH" [OF sym])
qed

text \<open>
  When the loop ends normally, the header text is cut behind the terminator: it still
  holds the terminator, it is not empty, and the body offset is its length.
\<close>

lemma readHeader_loop_result:
  "readHeader_loop f hs = Inr (Inr (f', hs', off)) \<Longrightarrow>
   hs' \<noteq> [] \<and> Index hs' ''end_header'' \<noteq> None \<and> off = of_nat (length hs')"
proof (induction f hs rule: readHeader_loop.induct)
  case (1 f hs)
  show ?case
  proof (cases "file_Read f 100")
    case (Pair res f1)
    show ?thesis
    proof (cases res)
      case (Inl e)
      with Pair "1.prems" show ?thesis
        by (subst (asm) readHeader_loop.simps) simp
    next
      case (Inr chunk)
      show ?thesis
      proof (cases "Index (hs @ chunk) ''end_header''")
        case None
        with Pair Inr "1.prems" have "readHeader_loop f1 (hs @ chunk) = Inr (Inr (f', hs', off))"
          by (subst (asm) readHeader_loop.simps) simp
        with "1.IH" [OF Pair [symmetric] Inr None] show ?thesis by simp
      next
        case (Some p)
        with Pair Inr "1.prems" have
          len: "\<not> length (hs @ chunk) < p + length ''end_header'' + 1"
          and hs': "hs' = take (p + length ''end_header'' + 1) (hs @ chunk)"
          and off: "off = of_nat (p + length ''end_header'' + 1)"
          by (subst (asm) readHeader_loop.simps, simp split: if_splits)+
        from Index_take [OF Some, of "p + length ''end_header'' + 1"] hs'
        have "Index hs' ''end_header'' = Some p" by simp
        moreover from len hs' have "length hs' = p + length ''end_header'' + 1" by simp
        ultimately show ?thesis using off by auto
      qed
    qed
  qed
qed

text \<open>
  C10. \<open>readHeader\<close> never returns the "invalid ply file" error, and neither does \<open>Open\<close>,
  whatever the file: when the reading loop ends without the header-read error, the header
  text holds the terminator \<open>end_header\<close> and so is not empty.
\<close>

theorem Open_never_invalid_file:
  "readHeader pf \<noteq> Inr (Inl InvalidPlyFile)
   \<and> Open fs name \<noteq> Inr (Inl InvalidPlyFile)
   \<and> (readHeader pf = Inr (Inr pf') \<longrightarrow>
        headerStr pf' \<noteq> [] \<and> Index (headerStr pf') ''end_header'' \<noteq> None)"
proof -
  have a: "readHeader q \<noteq> Inr (Inl InvalidPlyFile)" for q
    using readHeader_loop_result [of "pfile q" "[]"] readHeader_loop_error [of "pfile q" "[]"]
    by (auto simp: readHeader_def split: sum.splits prod.splits)
  have b: "Open fs name \<noteq> Inr (Inl InvalidPlyFile)"
    using a by (auto simp: Open_def split: option.splits sum.splits)
  have c: "readHeader pf = Inr (Inr pf') \<longrightarrow>
        headerStr pf' \<noteq> [] \<and> Index (headerStr pf') ''end_header'' \<noteq> None"
    using readHeader_loop_result [of "pfile pf" "[]"]
    by (auto simp: readHeader_def split: sum.splits prod.splits if_splits)
  from a b c show ?thesis by blast
qed

text \<open>The smallest header: the terminator line alone.\<close>

theorem Open_never_invalid_file_witness:
  "readHeader
     \<lparr>pfile = \<lparr>content = ''end_header'' @ [newline], fpos = 0\<rparr>, headerStr = [],
      header = \<lparr>Format = [], Comment = [], offset = 0, Elements = []\<rparr>\<rparr> =
   Inr (Inr \<lparr>pfile = \<lparr>content = ''end_header'' @ [newline], fpos = 11\<rparr>,
             headerStr = ''end_header'' @ [newline],
             header = \<lparr>Format = [], Comment = [], offset = 11, Elements = []\<rparr>\<rparr>)
   \<and> ''end_header'' @ [newline] \<noteq> []
   \<and> Index (''end_header'' @ [newline]) ''end_header'' \<noteq> None"
  using Open_never_invalid_file
    [of "\<lparr>pfile = \<lparr>content = ''end_header'' @ [newline], fpos = 0\<rparr>, headerStr = [],
          header = \<lparr>Format = [], Comment = [], offset = 0, Elements = []\<rparr>\<rparr>"
        Map.empty "[]"
        "\<lparr>pfile = \<lparr>content = ''end_header'' @ [newline], fpos = 11\<rparr>,
          headerStr = ''end_header'' @ [newline],
          header = \<lparr>Format = [], Comment = [], offset = 11, Elements = []\<rparr>\<rparr>"]
  by (simp add: open_eval)

section \<open>Parsing the header lines\<close>

lemma parse_lines_append:
  "parse_lines s (xs @ ys) =
     (case parse_lines s xs of Inl p \<Rightarrow> Inl p | Inr s1 \<Rightarrow> parse_lines s1 ys)"
  by (induction xs arbitrary: s) (auto split: sum.splits)

lemma parse_line_format_Some:
  "match_format l = Some tok \<Longrightarrow> parse_line s l = Inr (s\<lparr>pFormat := tok\<rparr>)"
  by (simp add: parse_line_def)

lemma parse_line_format_None:
  "match_format l = None \<Longrightarrow> parse_line s l = Inr s' \<Longrightarrow> pFormat s' = pFormat s"
  by (auto simp: parse_line_def add_property_def close_header_def
      split: option.splits sum.splits prod.splits if_splits)

lemma parse_lines_format_None:
  "\<forall>l\<in>set ls. match_format l = None \<Longrightarrow> parse_lines s ls = Inr s' \<Longrightarrow>
   pFormat s' = pFormat s"
proof (induction ls arbitrary: s)
  case Nil
  then show ?case by simp
next
  case (Cons l ls)
  from Cons.prems obtain s1 where s1: "parse_line s l = Inr s1" "parse_lines s1 ls = Inr s'"
    by (auto split: sum.splits)
  from Cons.prems s1 have "pFormat s1 = pFormat s"
    by (auto dest: parse_line_format_None)
  moreover from Cons.IH [OF _ s1(2)] Cons.prems have "pFormat s' = pFormat s1" by simp
  ultimately show ?case by simp
qed

text \<open>
  C1, as the code has it. Every line that matches the format expression overwrites the
  stored format, so after parsing the schema's format is the token of the last matching
  format line of the header (\<open>l\<close>, with no matching line in \<open>post\<close> behind it), whatever
  format lines come before it in \<open>pre\<close>.
\<close>

theorem parseHeader_format_last:
  assumes lines: "split_lines (headerStr f) = pre @ l # post"
    and l: "match_format l = Some tok"
    and post: "\<forall>l'\<in>set post. match_format l' = None"
    and ok: "parseHeader f = Inr f'"
  shows "Format (header f') = tok"
proof -
  let ?s0 = "\<lparr>pFormat = Format (header f), pComment = Comment (header f),
              pElements = [], heap = [], currElement = None\<rparr>"
  from ok obtain s where s: "parse_lines ?s0 (pre @ l # post) = Inr s"
    and f': "Format (header f') = pFormat s"
    by (auto simp: parseHeader_def lines split: sum.splits)
  from s obtain s1 where s1: "parse_lines ?s0 pre = Inr s1"
    and rest: "parse_lines s1 (l # post) = Inr s"
    by (auto simp: parse_lines_append split: sum.splits)
  from rest l have "parse_lines (s1\<lparr>pFormat := tok\<rparr>) post = Inr s"
    by (simp add: parse_line_format_Some)
  from parse_lines_format_None [OF post this] have "pFormat s = tok" by simp
  with f' show ?thesis by simp
qed

theorem parseHeader_format_last_witness:
  "parseHeader
     \<lparr>pfile = \<lparr>content = [], fpos = 0\<rparr>,
      headerStr = ''format binary_little_endian 1.0'' @ [newline] @ ''format ascii 1.0'' @
                  [newline] @ ''end_header'' @ [newline],
      header = \<lparr>Format = [], Comment = [], offset = 0, Elements = []\<rparr>\<rparr> =
   Inr \<lparr>pfile = \<lparr>content = [], fpos = 0\<rparr>,
        headerStr = ''format binary_little_endian 1.0'' @ [newline] @ ''format ascii 1.0'' @
                    [newline] @ ''end_header'' @ [newline],
        header = \<lparr>Format = ''ascii'', Comment = [], offset = 0, Elements = [None]\<rparr>\<rparr>
   \<and> Format \<lparr>Format = ''ascii'', Comment = [], offset = 0, Elements = [None]\<rparr> = ''ascii''"
  using parseHeader_format_last
    [of "\<lparr>pfile = \<lparr>content = [], fpos = 0\<rparr>,
          headerStr = ''format binary_little_endian 1.0'' @ [newline] @ ''format ascii 1.0'' @
                      [newline] @ ''end_header'' @ [newline],
          header = \<lparr>Format = [], Comment = [], offset = 0, Elements = []\<rparr>\<rparr>"
        "[''format binary_little_endian 1.0'']" "''format ascii 1.0''" "[''end_header'', []]"
        "''ascii''"
        "\<lparr>pfile = \<lparr>content = [], fpos = 0\<rparr>,
          headerStr = ''format binary_little_endian 1.0'' @ [newline] @ ''format ascii 1.0'' @
                      [newline] @ ''end_header'' @ [newline],
          header = \<lparr>Format = ''ascii'', Comment = [], offset = 0, Elements = [None]\<rparr>\<rparr>"]
  by (simp add: parse_eval)

text \<open>
  The claim as stated fails: the first format line of this header has the token \<open>ascii\<close>,
  a later one \<open>binary_little_endian\<close>, and the stored format is the later one.
\<close>

theorem parseHeader_format_first_counterexample:
  "match_format ''format ascii 1.0'' = Some ''ascii''
   \<and> parseHeader
       \<lparr>pfile = \<lparr>content = [], fpos = 0\<rparr>,
        headerStr = ''format ascii 1.0'' @ [newline] @ ''format binary_little_endian 1.0'' @
                    [newline] @ ''end_header'' @ [newline],
        header = \<lparr>Format = [], Comment = [], offset = 0, Elements = []\<rparr>\<rparr> =
     Inr \<lparr>pfile = \<lparr>content = [], fpos = 0\<rparr>,
          headerStr = ''format ascii 1.0'' @ [newline] @ ''format binary_little_endian 1.0'' @
                      [newline] @ ''end_header'' @ [newline],
          header = \<lparr>Format = ''binary_little_endian'', Comment = [], offset = 0,
                    Elements = [None]\<rparr>\<rparr>"
  by (simp add: parse_eval)

text \<open>
  C4. A header whose property line (with the recognised type \<open>float\<close>) comes before any
  element line: at that line \<open>currElement\<close> is still \<open>nil\<close>, and appending to its
  \<open>Properties\<close> dereferences it. Parsing does not complete.
\<close>

theorem parseHeader_property_before_element:
  "parseHeader
     \<lparr>pfile = \<lparr>content = [], fpos = 0\<rparr>,
      headerStr = ''format binary_little_endian 1.0'' @ [newline] @ ''property float x'' @
                  [newline] @ ''element vertex 1'' @ [newline] @ ''end_header'' @ [newline],
      header = \<lparr>Format = [], Comment = [], offset = 0, Elements = []\<rparr>\<rparr> =
   Inl NilDereference"
  by (simp add: parse_eval)

text \<open>
  C9. A file whose header declares no element is accepted by \<open>Open\<close>; the terminator line
  appends the \<open>nil\<close> \<open>currElement\<close>, so the schema's element list is a single \<open>nil\<close> entry,
  and \<open>Has\<close> and \<open>GetElementReader\<close> dereference it for whatever name they are asked.
\<close>

theorem Open_without_element_nil_entry:
  "Open [''empty.ply'' \<mapsto> ''ply'' @ [newline] @ ''format binary_little_endian 1.0'' @
                           [newline] @ ''end_header'' @ [newline]] ''empty.ply'' =
     Inr (Inr \<lparr>pfile = \<lparr>content = ''ply'' @ [newline] @ ''format binary_little_endian 1.0'' @
                                   [newline] @ ''end_header'' @ [newline], fpos = 47\<rparr>,
               headerStr = ''ply'' @ [newline] @ ''format binary_little_endian 1.0'' @
                           [newline] @ ''end_header'' @ [newline],
               header = \<lparr>Format = ''binary_little_endian'', Comment = [], offset = 47,
                         Elements = [None]\<rparr>\<rparr>)
   \<and> Has \<lparr>pfile = \<lparr>content = ''ply'' @ [newline] @ ''format binary_little_endian 1.0'' @
                                [newline] @ ''end_header'' @ [newline], fpos = 47\<rparr>,
            headerStr = ''ply'' @ [newline] @ ''format binary_little_endian 1.0'' @
                        [newline] @ ''end_header'' @ [newline],
            header = \<lparr>Format = ''binary_little_endian'', Comment = [], offset = 47,
                      Elements = [None]\<rparr>\<rparr> ''vertex'' = Inl NilDereference
   \<and> GetElementReader
          \<lparr>pfile = \<lparr>content = ''ply'' @ [newline] @ ''format binary_little_endian 1.0'' @
                                [newline] @ ''end_header'' @ [newline], fpos = 47\<rparr>,
            headerStr = ''ply'' @ [newline] @ ''format binary_little_endian 1.0'' @
                        [newline] @ ''end_header'' @ [newline],
            header = \<lparr>Format = ''binary_little_endian'', Comment = [], offset = 47,
                      Elements = [None]\<rparr>\<rparr> ''vertex'' = Inl NilDereference"
  by (simp add: open_eval Has_def GetElementReader_def)

section \<open>Reading at the end of an element\<close>

text \<open>
  C8, as the code has it. With the cursor at the count, \<open>ReadNext\<close> first repositions the
  source to base offset + count \<times> record size. If that position is negative in \<open>int64\<close> the
  call fails with the error of the seek; otherwise it fails with the end-of-element error
  \<open>io.EOF\<close>. Either way the reader (and its cursor) and the target are returned as they
  were, and nothing is read: of the source only the position changes.
\<close>

theorem ReadNext_at_count:
  assumes "relement r = Some e" and "pos r = Count e"
  shows "(sint (roffset r + Count e * of_nat (PointByteSize e)) < 0 \<longrightarrow>
            ReadNext r f t = Inr (Inl SeekInvalid, r, f, t))
       \<and> (0 \<le> sint (roffset r + Count e * of_nat (PointByteSize e)) \<longrightarrow>
            ReadNext r f t =
              Inr (Inl EOF, r,
                   f\<lparr>fpos := nat (sint (roffset r + Count e * of_nat (PointByteSize e)))\<rparr>, t))"
  using assms by (simp add: ReadNext_def file_Seek_def)

theorem ReadNext_at_count_witness:
  "ReadNext
     \<lparr>pos = 2, roffset = 146,
      relement = Some \<lparr>Name = ''vertex'', Count = 2, Properties =
                         [\<lparr>Type = ''float'', PName = ''x'', Size = 4\<rparr>,
                          \<lparr>Type = ''uchar'', PName = ''red'', Size = 1\<rparr>]\<rparr>\<rparr>
     \<lparr>content = [], fpos = 0\<rparr> OtherPtr =
   Inr (Inl EOF,
        \<lparr>pos = 2, roffset = 146,
         relement = Some \<lparr>Name = ''vertex'', Count = 2, Properties =
                         [\<lparr>Type = ''float'', PName = ''x'', Size = 4\<rparr>,
                          \<lparr>Type = ''uchar'', PName = ''red'', Size = 1\<rparr>]\<rparr>\<rparr>,
        \<lparr>content = [], fpos = 156\<rparr>, OtherPtr)"
  using ReadNext_at_count
    [of "\<lparr>pos = 2, roffset = 146,
          relement = Some \<lparr>Name = ''vertex'', Count = 2, Properties =
                         [\<lparr>Type = ''float'', PName = ''x'', Size = 4\<rparr>,
                          \<lparr>Type = ''uchar'', PName = ''red'', Size = 1\<rparr>]\<rparr>\<rparr>"
        "\<lparr>Name = ''vertex'', Count = 2, Properties =
                         [\<lparr>Type = ''float'', PName = ''x'', Size = 4\<rparr>,
                          \<lparr>Type = ''uchar'', PName = ''red'', Size = 1\<rparr>]\<rparr>"
        "\<lparr>content = [], fpos = 0\<rparr>" OtherPtr]
  by (simp add: PointByteSize_def)

text \<open>
  The claim as stated fails: the element is declared with the largest count and one-byte
  records, the cursor is at the count, and the position to seek to wraps around to a
  negative \<open>int64\<close>. The call fails with the error of the seek, not with \<open>io.EOF\<close>.
\<close>

theorem ReadNext_at_count_seek_counterexample:
  "ReadNext
     \<lparr>pos = 0x7FFFFFFFFFFFFFFF, roffset = 100,
      relement = Some \<lparr>Name = ''v'', Count = 0x7FFFFFFFFFFFFFFF, Properties =
                         [\<lparr>Type = ''uchar'', PName = ''r'', Size = 1\<rparr>]\<rparr>\<rparr>
     \<lparr>content = [], fpos = 0\<rparr> OtherPtr =
   Inr (Inl SeekInvalid,
        \<lparr>pos = 0x7FFFFFFFFFFFFFFF, roffset = 100,
         relement = Some \<lparr>Name = ''v'', Count = 0x7FFFFFFFFFFFFFFF, Properties =
                         [\<lparr>Type = ''uchar'', PName = ''r'', Size = 1\<rparr>]\<rparr>\<rparr>,
        \<lparr>content = [], fpos = 0\<rparr>, OtherPtr)"
  by (simp add: ReadNext_def PointByteSize_def file_Seek_def)

section \<open>Offsets of elements in the body\<close>

lemma has_loop_first:
  "Name e \<notin> Name ` set pre \<Longrightarrow> has_loop (map Some pre @ Some e # rest) (Name e) = Inr True"
  by (induction pre) auto

lemma getElement_loop_first:
  "Name e \<notin> Name ` set pre \<Longrightarrow>
   getElement_loop (map Some pre @ Some e # rest) (Name e) = Inr (Some e)"
  by (induction pre) auto

lemma offset_loop_first:
  "Name e \<notin> Name ` set pre \<Longrightarrow>
   offset_loop (map Some pre @ Some e # rest) (Name e) acc =
     Inr (acc + (\<Sum>d\<leftarrow>pre. Count d * of_nat (PointByteSize d)))"
  by (induction pre arbitrary: acc) (auto simp: add.assoc)

text \<open>
  The sum that the loop of \<open>getElementOffset\<close> builds in \<open>int64\<close> is the sum over the
  integers, taken modulo \<open>2 ^ 64\<close>; it is that sum itself when base offset and sum together
  lie in the range of \<open>int64\<close>.
\<close>

lemma word_sum_of_int_sum:
  "(\<Sum>d\<leftarrow>pre. Count d * of_nat (PointByteSize d)) =
   (of_int (\<Sum>d\<leftarrow>pre. sint (Count d) * int (PointByteSize d)) :: int64)"
  by (induction pre) simp_all

lemma sint_of_int_int64:
  "- (2 ^ 63) \<le> k \<Longrightarrow> k < 2 ^ 63 \<Longrightarrow> sint (of_int k :: int64) = k"
  by (simp add: signed_of_int signed_take_bit_int_eq_self)

lemma sint_offset_sum:
  assumes "- (2 ^ 63) \<le> sint (b :: int64) + (\<Sum>d\<leftarrow>pre. sint (Count d) * int (PointByteSize d))"
    and "sint b + (\<Sum>d\<leftarrow>pre. sint (Count d) * int (PointByteSize d)) < 2 ^ 63"
  shows "sint (b + (\<Sum>d\<leftarrow>pre. Count d * of_nat (PointByteSize d))) =
         sint b + (\<Sum>d\<leftarrow>pre. sint (Count d) * int (PointByteSize d))"
proof -
  have "b + (\<Sum>d\<leftarrow>pre. Count d * of_nat (PointByteSize d)) =
        of_int (sint b + (\<Sum>d\<leftarrow>pre. sint (Count d) * int (PointByteSize d)))"
    by (simp add: word_sum_of_int_sum)
  with sint_of_int_int64 [OF assms] show ?thesis by simp
qed

text \<open>
  C5, as the code has it. Let \<open>e\<close> be the first element of the schema with its name and
  \<open>pre\<close> the elements declared before it. \<open>GetElementReader\<close> returns for that name a reader
  at cursor 0 that is bound to \<open>e\<close>. Whenever the body offset plus the sum over \<open>pre\<close> of
  count times record byte size, taken in the integers, is in the range of \<open>int64\<close>, the
  reader's base offset is that number. For the first declared element \<open>pre\<close> is empty and
  the base offset is the body offset itself. (The code adds and multiplies in \<open>int64\<close>; in
  general the base offset is the word that these operations give.)
\<close>

theorem GetElementReader_base_offset:
  assumes "Elements (header f) = map Some pre @ Some e # rest"
    and "Name e \<notin> Name ` set pre"
  shows "GetElementReader f (Name e) =
           Inr (Inr \<lparr>pos = 0,
                     roffset = offset (header f) +
                               (\<Sum>d\<leftarrow>pre. Count d * of_nat (PointByteSize d)),
                     relement = Some e\<rparr>)
         \<and> (- (2 ^ 63) \<le> sint (offset (header f)) +
                            (\<Sum>d\<leftarrow>pre. sint (Count d) * int (PointByteSize d))
              \<and> sint (offset (header f)) +
                   (\<Sum>d\<leftarrow>pre. sint (Count d) * int (PointByteSize d)) < 2 ^ 63 \<longrightarrow>
              sint (offset (header f) + (\<Sum>d\<leftarrow>pre. Count d * of_nat (PointByteSize d))) =
                sint (offset (header f)) +
                  (\<Sum>d\<leftarrow>pre. sint (Count d) * int (PointByteSize d)))
         \<and> (pre = [] \<longrightarrow>
              GetElementReader f (Name e) =
                Inr (Inr \<lparr>pos = 0, roffset = offset (header f), relement = Some e\<rparr>))"
proof (intro conjI impI)
  show g: "GetElementReader f (Name e) =
           Inr (Inr \<lparr>pos = 0,
                     roffset = offset (header f) +
                               (\<Sum>d\<leftarrow>pre. Count d * of_nat (PointByteSize d)),
                     relement = Some e\<rparr>)"
    using assms
    by (simp add: GetElementReader_def Has_def getElementOffset_def getElement_def
        has_loop_first getElement_loop_first offset_loop_first)
  assume "pre = []"
  with g show "GetElementReader f (Name e) =
                Inr (Inr \<lparr>pos = 0, roffset = offset (header f), relement = Some e\<rparr>)"
    by simp
next
  assume "- (2 ^ 63) \<le> sint (offset (header f)) +
                            (\<Sum>d\<leftarrow>pre. sint (Count d) * int (PointByteSize d))
              \<and> sint (offset (header f)) +
                   (\<Sum>d\<leftarrow>pre. sint (Count d) * int (PointByteSize d)) < 2 ^ 63"
  then show "sint (offset (header f) + (\<Sum>d\<leftarrow>pre. Count d * of_nat (PointByteSize d))) =
                sint (offset (header f)) +
                  (\<Sum>d\<leftarrow>pre. sint (Count d) * int (PointByteSize d))"
    by (intro sint_offset_sum) simp_all
qed

text \<open>Two vertices of five bytes before the faces: 146 + 2 \<times> 5 = 156.\<close>

theorem GetElementReader_base_offset_witness:
  "GetElementReader
     \<lparr>pfile = \<lparr>content = [], fpos = 0\<rparr>, headerStr = [],
      header = \<lparr>Format = ''binary_little_endian'', Comment = [], offset = 146,
                Elements =
                  [Some \<lparr>Name = ''vertex'', Count = 2, Properties =
                           [\<lparr>Type = ''float'', PName = ''x'', Size = 4\<rparr>,
                            \<lparr>Type = ''uchar'', PName = ''red'', Size = 1\<rparr>]\<rparr>,
                   Some \<lparr>Name = ''face'', Count = 3, Properties =
                           [\<lparr>Type = ''ushort'', PName = ''a'', Size = 2\<rparr>]\<rparr>]\<rparr>\<rparr>
     ''face'' =
   Inr (Inr \<lparr>pos = 0, roffset = 156,
             relement = Some \<lparr>Name = ''face'', Count = 3, Properties =
                           [\<lparr>Type = ''ushort'', PName = ''a'', Size = 2\<rparr>]\<rparr>\<rparr>)
   \<and> sint (156 :: int64) = sint (146 :: int64) + sint (2 :: int64) * int 5"
  using GetElementReader_base_offset
    [of "\<lparr>pfile = \<lparr>content = [], fpos = 0\<rparr>, headerStr = [],
      header = \<lparr>Format = ''binary_little_endian'', Comment = [], offset = 146,
                Elements =
                  [Some \<lparr>Name = ''vertex'', Count = 2, Properties =
                           [\<lparr>Type = ''float'', PName = ''x'', Size = 4\<rparr>,
                            \<lparr>Type = ''uchar'', PName = ''red'', Size = 1\<rparr>]\<rparr>,
                   Some \<lparr>Name = ''face'', Count = 3, Properties =
                           [\<lparr>Type = ''ushort'', PName = ''a'', Size = 2\<rparr>]\<rparr>]\<rparr>\<rparr>"
        "[\<lparr>Name = ''vertex'', Count = 2, Properties =
                           [\<lparr>Type = ''float'', PName = ''x'', Size = 4\<rparr>,
                            \<lparr>Type = ''uchar'', PName = ''red'', Size = 1\<rparr>]\<rparr>]"
        "\<lparr>Name = ''face'', Count = 3, Properties =
                           [\<lparr>Type = ''ushort'', PName = ''a'', Size = 2\<rparr>]\<rparr>"
        "[]"]
  by (simp add: PointByteSize_def)

text \<open>
  The claim as stated fails. \<open>Open\<close> accepts this file; its element \<open>a\<close> is declared with
  the largest count and two-byte records, and the body offset is 123. The reader of the
  next element \<open>b\<close> has the base offset 121, which is not 123 plus the count of \<open>a\<close> times 2.
\<close>

theorem GetElementReader_base_offset_counterexample:
  "Open [''big.ply'' \<mapsto> ''ply'' @ [newline] @ ''format binary_little_endian 1.0'' @ [newline] @
                  ''element a 9223372036854775807'' @ [newline] @ ''property short s'' @
                  [newline] @ ''element b 1'' @ [newline] @ ''property uchar t'' @ [newline] @
                  ''end_header'' @ [newline]] ''big.ply'' =
     Inr (Inr \<lparr>pfile = \<lparr>content = ''ply'' @ [newline] @ ''format binary_little_endian 1.0'' @ [newline] @
                  ''element a 9223372036854775807'' @ [newline] @ ''property short s'' @
                  [newline] @ ''element b 1'' @ [newline] @ ''property uchar t'' @ [newline] @
                  ''end_header'' @ [newline], fpos = 123\<rparr>,
          headerStr = ''ply'' @ [newline] @ ''format binary_little_endian 1.0'' @ [newline] @
                  ''element a 9223372036854775807'' @ [newline] @ ''property short s'' @
                  [newline] @ ''element b 1'' @ [newline] @ ''property uchar t'' @ [newline] @
                  ''end_header'' @ [newline],
          header = \<lparr>Format = ''binary_little_endian'', Comment = [], offset = 123,
                    Elements =
                  [Some \<lparr>Name = ''a'', Count = 0x7FFFFFFFFFFFFFFF, Properties =
                           [\<lparr>Type = ''short'', PName = ''s'', Size = 2\<rparr>]\<rparr>,
                   Some \<lparr>Name = ''b'', Count = 1, Properties =
                           [\<lparr>Type = ''uchar'', PName = ''t'', Size = 1\<rparr>]\<rparr>]\<rparr>\<rparr>)
   \<and> GetElementReader
         \<lparr>pfile = \<lparr>content = ''ply'' @ [newline] @ ''format binary_little_endian 1.0'' @ [newline] @
                  ''element a 9223372036854775807'' @ [newline] @ ''property short s'' @
                  [newline] @ ''element b 1'' @ [newline] @ ''property uchar t'' @ [newline] @
                  ''end_header'' @ [newline], fpos = 123\<rparr>,
          headerStr = ''ply'' @ [newline] @ ''format binary_little_endian 1.0'' @ [newline] @
                  ''element a 9223372036854775807'' @ [newline] @ ''property short s'' @
                  [newline] @ ''element b 1'' @ [newline] @ ''property uchar t'' @ [newline] @
                  ''end_header'' @ [newline],
          header = \<lparr>Format = ''binary_little_endian'', Comment = [], offset = 123,
                    Elements =
                  [Some \<lparr>Name = ''a'', Count = 0x7FFFFFFFFFFFFFFF, Properties =
                           [\<lparr>Type = ''short'', PName = ''s'', Size = 2\<rparr>]\<rparr>,
                   Some \<lparr>Name = ''b'', Count = 1, Properties =
                           [\<lparr>Type = ''uchar'', PName = ''t'', Size = 1\<rparr>]\<rparr>]\<rparr>\<rparr>
         ''b'' =
       Inr (Inr \<lparr>pos = 0, roffset = 121,
                 relement = Some \<lparr>Name = ''b'', Count = 1, Properties =
                           [\<lparr>Type = ''uchar'', PName = ''t'', Size = 1\<rparr>]\<rparr>\<rparr>)
   \<and> sint (121 :: int64) \<noteq> sint (123 :: int64) + sint (0x7FFFFFFFFFFFFFFF :: int64) * int 2"
  by (simp add: open_eval GetElementReader_def Has_def getElementOffset_def getElement_def
      PointByteSize_def)

section \<open>The record decoder on a bindable target\<close>

lemmas decode_eval =
  store_field_def slice_def memcpy_def reflect_Set_def scalar_case_def

lemmas read_eval =
  ReadNext_def file_Seek_def file_Read_def PointByteSize_def decode_eval

lemma le_word_zeros: "le_word (bs @ replicate n (CHR 0x00)) = le_word bs"
proof (induction bs)
  case Nil
  show ?case by (induction n) simp_all
next
  case (Cons b bs)
  then show ?case by simp
qed

lemma from_bytes_zeros: "from_bytes T (bs @ replicate n (CHR 0x00)) = from_bytes T bs"
  by (cases T) (simp_all add: le_word_zeros)

lemma typeof_from_bytes: "typeof (from_bytes T d) = T"
  by (cases T) simp_all

lemma store_field_ok:
  assumes "accepts p f" and "off + Size p \<le> length buf" and "tag f = PName p"
  shows "store_field p buf off f = Inr (step_field p buf off f)"
proof (cases "scalar_case (Type p)")
  case None
  then show ?thesis by (simp add: store_field_def step_field_def assms)
next
  case (Some T)
  with assms have w: "Size p \<le> width T" "exported f" "typeof (fvalue f) = T"
    by (simp_all add: accepts_def)
  from assms(2) have len: "length (take (Size p) (drop off buf)) = Size p" by simp
  show ?thesis
    using Some w assms(2,3) len
    by (simp add: store_field_def step_field_def slice_def memcpy_def reflect_Set_def
        from_bytes_zeros typeof_from_bytes)
qed

lemma set_fields_ok:
  "\<forall>f\<in>set fs. tag f = PName p \<longrightarrow> accepts p f \<Longrightarrow> off + Size p \<le> length buf \<Longrightarrow>
   set_fields p buf off fs = Inr (map (step_field p buf off) fs)"
proof (induction fs)
  case Nil
  then show ?case by simp
next
  case (Cons f fs)
  then show ?case
    by (cases "tag f = PName p") (simp_all add: store_field_ok, simp add: step_field_def)
qed

lemma step_field_shape:
  "tag (step_field p buf off f) = tag f"
  "exported (step_field p buf off f) = exported f"
  by (simp_all add: step_field_def split: option.splits)

lemma step_field_typeof:
  "(tag f = PName p \<longrightarrow> accepts p f) \<Longrightarrow>
   typeof (fvalue (step_field p buf off f)) = typeof (fvalue f)"
  by (auto simp: step_field_def accepts_def typeof_from_bytes split: option.splits)

lemma accepts_step_field:
  "(tag f = PName p \<longrightarrow> accepts p f) \<Longrightarrow> accepts q f \<Longrightarrow>
   accepts q (step_field p buf off f)"
  using step_field_typeof [of f p buf off]
  by (auto simp: accepts_def step_field_shape split: option.splits)

lemma bindable_step:
  assumes "bindable (p # ps) fs"
  shows "bindable ps (map (step_field p buf off) fs)"
  using assms unfolding bindable_def
  by (auto simp: step_field_shape intro!: accepts_step_field)

lemma decode_props_ok:
  "bindable ps fs \<Longrightarrow> off + sum_list (map Size ps) \<le> length buf \<Longrightarrow>
   decode_props ps buf off (StructPtr fs) = Inr (StructPtr (map (decoded ps buf off) fs))"
proof (induction ps arbitrary: off fs)
  case Nil
  then show ?case by simp
next
  case (Cons p ps)
  from Cons.prems have a: "\<forall>f\<in>set fs. tag f = PName p \<longrightarrow> accepts p f"
    by (simp add: bindable_def)
  from Cons.prems have b: "off + Size p \<le> length buf" by simp
  from Cons.prems have c: "(off + Size p) + sum_list (map Size ps) \<le> length buf" by simp
  show ?case
    using Cons.IH [OF bindable_step [OF Cons.prems(1)] c]
    by (simp add: set_fields_ok [OF a b] comp_def)
qed

lemma decoded_tag: "tag (decoded ps buf off f) = tag f"
  by (induction ps arbitrary: off f) (simp_all add: step_field_shape)

lemma step_field_other: "tag f \<noteq> PName p \<Longrightarrow> step_field p buf off f = f"
  by (simp add: step_field_def)

lemma decoded_frame: "tag f \<notin> PName ` set ps \<Longrightarrow> decoded ps buf off f = f"
proof (induction ps arbitrary: off)
  case Nil
  show ?case by simp
next
  case (Cons p ps)
  from Cons.prems have "tag f \<noteq> PName p" "tag f \<notin> PName ` set ps" by auto
  then show ?case by (simp add: step_field_other Cons.IH)
qed

lemma decoded_value:
  "k < length ps \<Longrightarrow> tag f = PName (ps ! k) \<Longrightarrow> scalar_case (Type (ps ! k)) = Some T \<Longrightarrow>
   \<forall>j<length ps. k < j \<longrightarrow> PName (ps ! j) \<noteq> PName (ps ! k) \<Longrightarrow>
   fvalue (decoded ps buf off f) =
     from_bytes T (take (Size (ps ! k)) (drop (off + sum_list (map Size (take k ps))) buf))"
proof (induction ps arbitrary: k off f)
  case Nil
  then show ?case by simp
next
  case (Cons p ps)
  note last = Cons.prems(4)
  show ?case
  proof (cases k)
    case 0
    have later: "tag f \<notin> PName ` set ps"
    proof
      assume "tag f \<in> PName ` set ps"
      then obtain j where j: "j < length ps" "PName (ps ! j) = tag f"
        by (auto simp: in_set_conv_nth)
      from last [rule_format, of "Suc j"] j 0 have "PName (ps ! j) \<noteq> PName p" by simp
      with j Cons.prems(2) 0 show False by simp
    qed
    then have "tag (step_field p buf off f) \<notin> PName ` set ps"
      by (simp add: step_field_shape)
    from decoded_frame [OF this] 0 Cons.prems(2,3) show ?thesis
      by (simp add: step_field_def)
  next
    case (Suc k')
    from Suc Cons.prems(1) have a: "k' < length ps" by simp
    from Suc Cons.prems(2) have b: "tag (step_field p buf off f) = PName (ps ! k')"
      by (simp add: step_field_shape)
    from Suc Cons.prems(3) have c: "scalar_case (Type (ps ! k')) = Some T" by simp
    have d: "\<forall>j<length ps. k' < j \<longrightarrow> PName (ps ! j) \<noteq> PName (ps ! k')"
    proof (intro allI impI)
      fix j assume "j < length ps" "k' < j"
      with last [rule_format, of "Suc j"] Suc show "PName (ps ! j) \<noteq> PName (ps ! k')"
        by simp
    qed
    from Cons.IH [OF a b c d] Suc show ?thesis
      by (simp add: add.assoc)
  qed
qed

lemma decode_props_post:
  assumes "bindable ps fs" and "off + sum_list (map Size ps) \<le> length buf"
  shows "\<exists>fs'. decode_props ps buf off (StructPtr fs) = Inr (StructPtr fs')
           \<and> length fs' = length fs
           \<and> (\<forall>i<length fs.
                 tag (fs' ! i) = tag (fs ! i)
               \<and> (tag (fs ! i) \<notin> PName ` set ps \<longrightarrow> fs' ! i = fs ! i)
               \<and> (\<forall>k<length ps. \<forall>T.
                     tag (fs ! i) = PName (ps ! k) \<and> scalar_case (Type (ps ! k)) = Some T
                     \<and> (\<forall>j<length ps. k < j \<longrightarrow> PName (ps ! j) \<noteq> PName (ps ! k)) \<longrightarrow>
                     fvalue (fs' ! i) =
                       from_bytes T (take (Size (ps ! k))
                                      (drop (off + sum_list (map Size (take k ps))) buf))))"
proof (intro exI conjI allI impI)
  show "decode_props ps buf off (StructPtr fs) = Inr (StructPtr (map (decoded ps buf off) fs))"
    by (rule decode_props_ok [OF assms])
  show "length (map (decoded ps buf off) fs) = length fs" by simp
next
  fix i assume "i < length fs"
  then show "tag (map (decoded ps buf off) fs ! i) = tag (fs ! i)"
    by (simp add: decoded_tag)
next
  fix i assume "i < length fs" "tag (fs ! i) \<notin> PName ` set ps"
  then show "map (decoded ps buf off) fs ! i = fs ! i"
    by (simp add: decoded_frame)
next
  fix i k T
  assume "i < length fs" "k < length ps"
    "tag (fs ! i) = PName (ps ! k) \<and> scalar_case (Type (ps ! k)) = Some T
       \<and> (\<forall>j<length ps. k < j \<longrightarrow> PName (ps ! j) \<noteq> PName (ps ! k))"
  then show "fvalue (map (decoded ps buf off) fs ! i) =
     from_bytes T (take (Size (ps ! k)) (drop (off + sum_list (map Size (take k ps))) buf))"
    by (simp add: decoded_value)
qed

lemma store_field_Inr:
  assumes "store_field p buf off f = Inr f'" and "tag f = PName p"
  shows "f' = step_field p buf off f"
proof (cases "scalar_case (Type p)")
  case None
  with assms show ?thesis by (simp add: store_field_def step_field_def)
next
  case (Some T)
  with assms show ?thesis
    by (auto simp: store_field_def step_field_def slice_def memcpy_def reflect_Set_def
        from_bytes_zeros split: if_splits)
qed

lemma set_fields_Inr:
  "set_fields p buf off fs = Inr fs' \<Longrightarrow> fs' = map (step_field p buf off) fs"
proof (induction fs arbitrary: fs')
  case Nil
  then show ?case by simp
next
  case (Cons f fs)
  from Cons.prems obtain f1 fs1 where
    f1: "(if tag f = PName p then store_field p buf off f else Inr f) = Inr f1"
    and fs1: "set_fields p buf off fs = Inr fs1" and fs': "fs' = f1 # fs1"
    by (auto split: sum.splits)
  from f1 have "f1 = step_field p buf off f"
    by (auto simp: step_field_other dest: store_field_Inr split: if_splits)
  with Cons.IH [OF fs1] fs' show ?case by simp
qed

lemma decode_props_Inr:
  "decode_props ps buf off (StructPtr fs) = Inr t' \<Longrightarrow>
   t' = StructPtr (map (decoded ps buf off) fs)"
proof (induction ps arbitrary: off fs)
  case Nil
  then show ?case by simp
next
  case (Cons p ps)
  from Cons.prems obtain fs1 where fs1: "set_fields p buf off fs = Inr fs1"
    and rest: "decode_props ps buf (off + Size p) (StructPtr fs1) = Inr t'"
    by (auto split: sum.splits)
  from Cons.IH [OF rest] set_fields_Inr [OF fs1] show ?case by (simp add: comp_def)
qed

lemma decoded_post:
  "length (map (decoded ps buf off) fs) = length fs
   \<and> (\<forall>i<length fs.
         tag (map (decoded ps buf off) fs ! i) = tag (fs ! i)
       \<and> (tag (fs ! i) \<notin> PName ` set ps \<longrightarrow> map (decoded ps buf off) fs ! i = fs ! i)
       \<and> (\<forall>k<length ps. \<forall>T.
             tag (fs ! i) = PName (ps ! k) \<and> scalar_case (Type (ps ! k)) = Some T
             \<and> (\<forall>j<length ps. k < j \<longrightarrow> PName (ps ! j) \<noteq> PName (ps ! k)) \<longrightarrow>
             fvalue (map (decoded ps buf off) fs ! i) =
               from_bytes T (take (Size (ps ! k))
                              (drop (off + sum_list (map Size (take k ps))) buf))))"
  by (simp add: decoded_tag decoded_frame decoded_value)

text \<open>
  C7. Decoding a record into a struct target, with the record's bytes in the buffer from
  \<open>off\<close> on. Whenever the decode completes, every field keeps its tag; a field whose tag
  is the name of no property keeps its value; and a field whose tag is the name of property
  \<open>k\<close> (the last one of that name, with a decodable type) holds the value of the bytes that
  start at \<open>off\<close> plus the sizes of all properties before \<open>k\<close>, whether those are bound to
  a field or not: the bytes of an unmatched property are skipped, not lost track of. And
  the decode does complete when the target is bindable and the buffer holds the record.
\<close>

theorem decode_props_skips_unmatched:
  "(bindable ps fs \<and> off + sum_list (map Size ps) \<le> length buf \<longrightarrow>
      (\<exists>fs'. decode_props ps buf off (StructPtr fs) = Inr (StructPtr fs')))
   \<and> (\<forall>t'. decode_props ps buf off (StructPtr fs) = Inr t' \<longrightarrow>
        (\<exists>fs'. t' = StructPtr fs' \<and> length fs' = length fs
           \<and> (\<forall>i<length fs.
                 tag (fs' ! i) = tag (fs ! i)
               \<and> (tag (fs ! i) \<notin> PName ` set ps \<longrightarrow> fs' ! i = fs ! i)
               \<and> (\<forall>k<length ps. \<forall>T.
                     tag (fs ! i) = PName (ps ! k) \<and> scalar_case (Type (ps ! k)) = Some T
                     \<and> (\<forall>j<length ps. k < j \<longrightarrow> PName (ps ! j) \<noteq> PName (ps ! k)) \<longrightarrow>
                     fvalue (fs' ! i) =
                       from_bytes T (take (Size (ps ! k))
                                      (drop (off + sum_list (map Size (take k ps))) buf))))))"
proof (intro conjI impI allI)
  assume "bindable ps fs \<and> off + sum_list (map Size ps) \<le> length buf"
  then show "\<exists>fs'. decode_props ps buf off (StructPtr fs) = Inr (StructPtr fs')"
    by (auto simp: decode_props_ok)
next
  fix t' assume "decode_props ps buf off (StructPtr fs) = Inr t'"
  then have "t' = StructPtr (map (decoded ps buf off) fs)" by (rule decode_props_Inr)
  with decoded_post [of ps buf off fs]
  show "\<exists>fs'. t' = StructPtr fs' \<and> length fs' = length fs
           \<and> (\<forall>i<length fs.
                 tag (fs' ! i) = tag (fs ! i)
               \<and> (tag (fs ! i) \<notin> PName ` set ps \<longrightarrow> fs' ! i = fs ! i)
               \<and> (\<forall>k<length ps. \<forall>T.
                     tag (fs ! i) = PName (ps ! k) \<and> scalar_case (Type (ps ! k)) = Some T
                     \<and> (\<forall>j<length ps. k < j \<longrightarrow> PName (ps ! j) \<noteq> PName (ps ! k)) \<longrightarrow>
                     fvalue (fs' ! i) =
                       from_bytes T (take (Size (ps ! k))
                                      (drop (off + sum_list (map Size (take k ps))) buf))))"
    by blast
qed

text \<open>
  A record with \<open>x\<close>, \<open>y\<close>, \<open>z\<close>, \<open>red\<close>, \<open>green\<close>, \<open>blue\<close> decoded into a target without a
  field for \<open>green\<close>: the five bound fields hold their values, the untagged field is as it
  was.
\<close>

theorem decode_props_skips_unmatched_witness:
  "bindable (Properties vertex) NoGreen
   \<and> 0 + sum_list (map Size (Properties vertex)) \<le> length (take 27 body)
   \<and> decode_props (Properties vertex) (take 27 body) 0 (StructPtr NoGreen) =
       Inr (StructPtr
              [\<lparr>tag = ''blue'', exported = True, fvalue = VUint8 7\<rparr>,
               \<lparr>tag = ''x'', exported = True, fvalue = VFloat64 0x3FF0000000000000\<rparr>,
               \<lparr>tag = ''y'', exported = True, fvalue = VFloat64 0x4000000000000000\<rparr>,
               \<lparr>tag = ''z'', exported = True, fvalue = VFloat64 0xBFF0000000000000\<rparr>,
               \<lparr>tag = ''red'', exported = True, fvalue = VUint8 0xFF\<rparr>,
               \<lparr>tag = [], exported = False, fvalue = VInt64 42\<rparr>])"
proof -
  have h1: "bindable (Properties vertex) NoGreen"
    by (simp add: bindable_def accepts_def scalar_case_def vertex_def NoGreen_def)
  have h2: "0 + sum_list (map Size (Properties vertex)) \<le> length (take 27 body)"
    by (simp add: vertex_def body_def)
  have ev: "decode_props (Properties vertex) (take 27 body) 0 (StructPtr NoGreen) =
       Inr (StructPtr
              [\<lparr>tag = ''blue'', exported = True, fvalue = VUint8 7\<rparr>,
               \<lparr>tag = ''x'', exported = True, fvalue = VFloat64 0x3FF0000000000000\<rparr>,
               \<lparr>tag = ''y'', exported = True, fvalue = VFloat64 0x4000000000000000\<rparr>,
               \<lparr>tag = ''z'', exported = True, fvalue = VFloat64 0xBFF0000000000000\<rparr>,
               \<lparr>tag = ''red'', exported = True, fvalue = VUint8 0xFF\<rparr>,
               \<lparr>tag = [], exported = False, fvalue = VInt64 42\<rparr>])"
    by (simp add: vertex_def body_def NoGreen_def decode_eval)
  from decode_props_skips_unmatched [of "Properties vertex" NoGreen 0 "take 27 body"] h1 h2
  have "\<exists>fs'. decode_props (Properties vertex) (take 27 body) 0 (StructPtr NoGreen) =
          Inr (StructPtr fs')"
    by blast
  with h1 h2 ev show ?thesis by blast
qed

section \<open>Reading one record\<close>

lemma ReadNext_unfold:
  assumes "relement r = Some e" and "sint (pos r) < sint (Count e)"
    and "a = roffset r + pos r * of_nat (PointByteSize e)" and "0 \<le> sint a"
  shows "ReadNext r f t =
     (case file_Read (f\<lparr>fpos := nat (sint a)\<rparr>) (PointByteSize e) of
        (Inl err, f2) \<Rightarrow> Inr (Inl EOF, r, f2, t)
      | (Inr bs, f2) \<Rightarrow>
          (case decode_props (Properties e)
                  (bs @ replicate (PointByteSize e - length bs) (CHR 0x00)) 0 t of
             Inl pn \<Rightarrow> Inl pn
           | Inr t' \<Rightarrow> Inr (Inr (pos r + 1), r\<lparr>pos := pos r + 1\<rparr>, f2, t')))"
  using assms
  by (auto simp: ReadNext_def file_Seek_def file_Read_def split: prod.splits sum.splits)

lemma ReadNext_full_record:
  assumes "relement r = Some e" and "sint (pos r) < sint (Count e)"
    and "a = roffset r + pos r * of_nat (PointByteSize e)" and "0 \<le> sint a"
    and "nat (sint a) + PointByteSize e \<le> length (content f)"
  shows "ReadNext r f t =
           (case decode_props (Properties e)
                   (take (PointByteSize e) (drop (nat (sint a)) (content f))) 0 t of
              Inl pn \<Rightarrow> Inl pn
            | Inr t' \<Rightarrow>
                Inr (Inr (pos r + 1), r\<lparr>pos := pos r + 1\<rparr>,
                     f\<lparr>fpos := nat (sint a) + PointByteSize e\<rparr>, t'))"
  unfolding ReadNext_unfold [OF assms(1-4)] using assms(5)
  by (auto simp: file_Read_def split: sum.splits)

text \<open>
  C3, as the code has it. With the cursor below the count and a position \<open>a\<close> the source can
  be set to, \<open>ReadNext\<close> asks the source once for the bytes of one record at \<open>a\<close>. When the
  source ends at or before \<open>a\<close> (and records are not empty) the call fails with \<open>io.EOF\<close>,
  the reader and the target as they were. When the source holds the whole record, the
  buffer that is decoded is exactly the \<open>PointByteSize\<close> bytes at \<open>a\<close>, the cursor moves on by
  one and the source stands behind the record. (A source that ends inside the record is
  not covered: the code has no check for it.)
\<close>

theorem ReadNext_reads_record:
  assumes "relement r = Some e" and "sint (pos r) < sint (Count e)"
    and "a = roffset r + pos r * of_nat (PointByteSize e)" and "0 \<le> sint a"
  shows "(0 < PointByteSize e \<and> length (content f) \<le> nat (sint a) \<longrightarrow>
            ReadNext r f t = Inr (Inl EOF, r, f\<lparr>fpos := nat (sint a)\<rparr>, t))
       \<and> (nat (sint a) + PointByteSize e \<le> length (content f) \<longrightarrow>
            ReadNext r f t =
              (case decode_props (Properties e)
                      (take (PointByteSize e) (drop (nat (sint a)) (content f))) 0 t of
                 Inl pn \<Rightarrow> Inl pn
               | Inr t' \<Rightarrow>
                   Inr (Inr (pos r + 1), r\<lparr>pos := pos r + 1\<rparr>,
                        f\<lparr>fpos := nat (sint a) + PointByteSize e\<rparr>, t')))"
proof (intro conjI impI)
  assume "0 < PointByteSize e \<and> length (content f) \<le> nat (sint a)"
  then show "ReadNext r f t = Inr (Inl EOF, r, f\<lparr>fpos := nat (sint a)\<rparr>, t)"
    unfolding ReadNext_unfold [OF assms] by (simp add: file_Read_def)
next
  assume "nat (sint a) + PointByteSize e \<le> length (content f)"
  with assms show "ReadNext r f t =
              (case decode_props (Properties e)
                      (take (PointByteSize e) (drop (nat (sint a)) (content f))) 0 t of
                 Inl pn \<Rightarrow> Inl pn
               | Inr t' \<Rightarrow>
                   Inr (Inr (pos r + 1), r\<lparr>pos := pos r + 1\<rparr>,
                        f\<lparr>fpos := nat (sint a) + PointByteSize e\<rparr>, t'))"
    by (rule ReadNext_full_record)
qed

text \<open>The second record of the sample body, read in full; and a read behind the body.\<close>

theorem ReadNext_reads_record_witness:
  "ReadNext \<lparr>pos = 1, roffset = 0, relement = Some vertex\<rparr>
            \<lparr>content = body, fpos = 0\<rparr> (StructPtr Point) =
     Inr (Inr 2, \<lparr>pos = 2, roffset = 0, relement = Some vertex\<rparr>,
          \<lparr>content = body, fpos = 54\<rparr>,
          StructPtr
                 [\<lparr>tag = ''x'', exported = True, fvalue = VFloat64 0x3FE0000000000000\<rparr>,
                  \<lparr>tag = ''y'', exported = True, fvalue = VFloat64 0\<rparr>,
                  \<lparr>tag = ''z'', exported = True, fvalue = VFloat64 0x4008000000000000\<rparr>,
                  \<lparr>tag = ''red'', exported = True, fvalue = VUint8 1\<rparr>,
                  \<lparr>tag = ''green'', exported = True, fvalue = VUint8 2\<rparr>,
                  \<lparr>tag = ''blue'', exported = True, fvalue = VUint8 3\<rparr>])
   \<and> ReadNext \<lparr>pos = 1, roffset = 27, relement = Some vertex\<rparr>
              \<lparr>content = body, fpos = 0\<rparr> (StructPtr Point) =
       Inr (Inl EOF, \<lparr>pos = 1, roffset = 27, relement = Some vertex\<rparr>,
            \<lparr>content = body, fpos = 54\<rparr>, StructPtr Point)"
proof -
  have c: "sint (1 :: int64) < sint (Count vertex)" by (simp add: vertex_def)
  have s: "PointByteSize vertex = 27" by (simp add: PointByteSize_def vertex_def)
  have l: "length body = 54" by (simp add: body_def)
  have d: "decode_props (Properties vertex) (drop 27 body) 0 (StructPtr Point) =
     Inr (StructPtr
                 [\<lparr>tag = ''x'', exported = True, fvalue = VFloat64 0x3FE0000000000000\<rparr>,
                  \<lparr>tag = ''y'', exported = True, fvalue = VFloat64 0\<rparr>,
                  \<lparr>tag = ''z'', exported = True, fvalue = VFloat64 0x4008000000000000\<rparr>,
                  \<lparr>tag = ''red'', exported = True, fvalue = VUint8 1\<rparr>,
                  \<lparr>tag = ''green'', exported = True, fvalue = VUint8 2\<rparr>,
                  \<lparr>tag = ''blue'', exported = True, fvalue = VUint8 3\<rparr>])"
    by (simp add: vertex_def body_def Point_def decode_eval)
  from ReadNext_reads_record
         [of "\<lparr>pos = 1, roffset = 0, relement = Some vertex\<rparr>" vertex 27
             "\<lparr>content = body, fpos = 0\<rparr>" "StructPtr Point"]
  have one: "ReadNext \<lparr>pos = 1, roffset = 0, relement = Some vertex\<rparr>
            \<lparr>content = body, fpos = 0\<rparr> (StructPtr Point) =
     Inr (Inr 2, \<lparr>pos = 2, roffset = 0, relement = Some vertex\<rparr>,
          \<lparr>content = body, fpos = 54\<rparr>,
          StructPtr
                 [\<lparr>tag = ''x'', exported = True, fvalue = VFloat64 0x3FE0000000000000\<rparr>,
                  \<lparr>tag = ''y'', exported = True, fvalue = VFloat64 0\<rparr>,
                  \<lparr>tag = ''z'', exported = True, fvalue = VFloat64 0x4008000000000000\<rparr>,
                  \<lparr>tag = ''red'', exported = True, fvalue = VUint8 1\<rparr>,
                  \<lparr>tag = ''green'', exported = True, fvalue = VUint8 2\<rparr>,
                  \<lparr>tag = ''blue'', exported = True, fvalue = VUint8 3\<rparr>])"
    using c by (simp add: s l d)
  from ReadNext_reads_record
         [of "\<lparr>pos = 1, roffset = 27, relement = Some vertex\<rparr>" vertex 54
             "\<lparr>content = body, fpos = 0\<rparr>" "StructPtr Point"]
  have two: "ReadNext \<lparr>pos = 1, roffset = 27, relement = Some vertex\<rparr>
              \<lparr>content = body, fpos = 0\<rparr> (StructPtr Point) =
       Inr (Inl EOF, \<lparr>pos = 1, roffset = 27, relement = Some vertex\<rparr>,
            \<lparr>content = body, fpos = 54\<rparr>, StructPtr Point)"
    using c by (simp add: s l)
  from one two show ?thesis by simp
qed

text \<open>
  The claim as stated fails: the record has two bytes, the source delivers one, and the
  call completes with cursor 1 and a value decoded from that byte and a zero byte.
\<close>

theorem ReadNext_short_read_counterexample:
  "ReadNext \<lparr>pos = 0, roffset = 0,
             relement = Some \<lparr>Name = ''face'', Count = 1, Properties =
                                [\<lparr>Type = ''ushort'', PName = ''a'', Size = 2\<rparr>]\<rparr>\<rparr>
            \<lparr>content = [CHR 0x03], fpos = 0\<rparr>
            (StructPtr [\<lparr>tag = ''a'', exported = True, fvalue = VUint16 0\<rparr>]) =
   Inr (Inr 1,
        \<lparr>pos = 1, roffset = 0,
         relement = Some \<lparr>Name = ''face'', Count = 1, Properties =
                            [\<lparr>Type = ''ushort'', PName = ''a'', Size = 2\<rparr>]\<rparr>\<rparr>,
        \<lparr>content = [CHR 0x03], fpos = 1\<rparr>,
        StructPtr [\<lparr>tag = ''a'', exported = True, fvalue = VUint16 3\<rparr>])"
  by (simp add: read_eval)

text \<open>
  C2, as the code has it. When the source holds the whole record \<open>rec\<close> and the struct
  target is bindable, \<open>ReadNext\<close> completes, and a field whose tag is the name of property
  \<open>k\<close> has exactly the Go type \<open>T\<close> that the property is read as and holds the value of the
  property's bytes as a \<open>T\<close>: the value is stored as it is, and no conversion to another
  numeric type takes place.
\<close>

theorem ReadNext_stores_same_type:
  assumes e: "relement r = Some e" and lt: "sint (pos r) < sint (Count e)"
    and a: "a = roffset r + pos r * of_nat (PointByteSize e)" and a0: "0 \<le> sint a"
    and len: "nat (sint a) + PointByteSize e \<le> length (content f)"
    and rec: "rec = take (PointByteSize e) (drop (nat (sint a)) (content f))"
    and ps: "ps = Properties e"
    and b: "bindable ps fs"
  shows "\<exists>fs'. ReadNext r f (StructPtr fs) =
                 Inr (Inr (pos r + 1), r\<lparr>pos := pos r + 1\<rparr>,
                      f\<lparr>fpos := nat (sint a) + PointByteSize e\<rparr>, StructPtr fs')
           \<and> length fs' = length fs
           \<and> (\<forall>i<length fs. \<forall>k<length ps. \<forall>T.
                 tag (fs ! i) = PName (ps ! k) \<and> scalar_case (Type (ps ! k)) = Some T
                 \<and> (\<forall>j<length ps. k < j \<longrightarrow> PName (ps ! j) \<noteq> PName (ps ! k)) \<longrightarrow>
                 typeof (fvalue (fs ! i)) = T
                 \<and> fvalue (fs' ! i) =
                     from_bytes T (take (Size (ps ! k))
                                    (drop (sum_list (map Size (take k ps))) rec)))"
proof -
  from len rec have lrec: "0 + sum_list (map Size ps) \<le> length rec"
    by (simp add: ps PointByteSize_def)
  from decode_props_post [OF b lrec] obtain fs' where
    d: "decode_props ps rec 0 (StructPtr fs) = Inr (StructPtr fs')"
    and l: "length fs' = length fs"
    and v: "\<forall>i<length fs.
                 tag (fs' ! i) = tag (fs ! i)
               \<and> (tag (fs ! i) \<notin> PName ` set ps \<longrightarrow> fs' ! i = fs ! i)
               \<and> (\<forall>k<length ps. \<forall>T.
                     tag (fs ! i) = PName (ps ! k) \<and> scalar_case (Type (ps ! k)) = Some T
                     \<and> (\<forall>j<length ps. k < j \<longrightarrow> PName (ps ! j) \<noteq> PName (ps ! k)) \<longrightarrow>
                     fvalue (fs' ! i) =
                       from_bytes T (take (Size (ps ! k))
                                      (drop (0 + sum_list (map Size (take k ps))) rec)))"
    by blast
  from ReadNext_full_record [OF e lt a a0 len, of "StructPtr fs"] d
  have rn: "ReadNext r f (StructPtr fs) =
                 Inr (Inr (pos r + 1), r\<lparr>pos := pos r + 1\<rparr>,
                      f\<lparr>fpos := nat (sint a) + PointByteSize e\<rparr>, StructPtr fs')"
    by (simp add: rec ps)
  have ty: "typeof (fvalue (fs ! i)) = T"
    if "i < length fs" "k < length ps" "tag (fs ! i) = PName (ps ! k)"
      "scalar_case (Type (ps ! k)) = Some T" for i k T
  proof -
    from that b have "accepts (ps ! k) (fs ! i)"
      by (auto simp: bindable_def)
    with that(4) show ?thesis by (simp add: accepts_def)
  qed
  from rn l v ty show ?thesis by auto
qed

text \<open>The first record of the sample body read into a \<open>Point\<close>.\<close>

theorem ReadNext_stores_same_type_witness:
  "bindable (Properties vertex) Point
   \<and> ReadNext \<lparr>pos = 0, roffset = 0, relement = Some vertex\<rparr>
              \<lparr>content = body, fpos = 0\<rparr> (StructPtr Point) =
       Inr (Inr 1, \<lparr>pos = 1, roffset = 0, relement = Some vertex\<rparr>,
            \<lparr>content = body, fpos = 27\<rparr>,
            StructPtr
                 [\<lparr>tag = ''x'', exported = True, fvalue = VFloat64 0x3FF0000000000000\<rparr>,
                  \<lparr>tag = ''y'', exported = True, fvalue = VFloat64 0x4000000000000000\<rparr>,
                  \<lparr>tag = ''z'', exported = True, fvalue = VFloat64 0xBFF0000000000000\<rparr>,
                  \<lparr>tag = ''red'', exported = True, fvalue = VUint8 0xFF\<rparr>,
                  \<lparr>tag = ''green'', exported = True, fvalue = VUint8 0x80\<rparr>,
                  \<lparr>tag = ''blue'', exported = True, fvalue = VUint8 7\<rparr>])"
proof -
  let ?r = "\<lparr>pos = 0, roffset = 0, relement = Some vertex\<rparr>"
  let ?f = "\<lparr>content = body, fpos = 0\<rparr>"
  have s: "PointByteSize vertex = 27" by (simp add: PointByteSize_def vertex_def)
  have h1: "relement ?r = Some vertex" by simp
  have h2: "sint (pos ?r) < sint (Count vertex)" by (simp add: vertex_def)
  have h3: "(0 :: int64) = roffset ?r + pos ?r * of_nat (PointByteSize vertex)" by simp
  have h4: "0 \<le> sint (0 :: int64)" by simp
  have h5: "nat (sint (0 :: int64)) + PointByteSize vertex \<le> length (content ?f)"
    by (simp add: s body_def)
  have h8: "bindable (Properties vertex) Point"
    by (simp add: bindable_def accepts_def scalar_case_def vertex_def Point_def)
  have ev: "ReadNext ?r ?f (StructPtr Point) =
       Inr (Inr 1, \<lparr>pos = 1, roffset = 0, relement = Some vertex\<rparr>,
            \<lparr>content = body, fpos = 27\<rparr>,
            StructPtr
                 [\<lparr>tag = ''x'', exported = True, fvalue = VFloat64 0x3FF0000000000000\<rparr>,
                  \<lparr>tag = ''y'', exported = True, fvalue = VFloat64 0x4000000000000000\<rparr>,
                  \<lparr>tag = ''z'', exported = True, fvalue = VFloat64 0xBFF0000000000000\<rparr>,
                  \<lparr>tag = ''red'', exported = True, fvalue = VUint8 0xFF\<rparr>,
                  \<lparr>tag = ''green'', exported = True, fvalue = VUint8 0x80\<rparr>,
                  \<lparr>tag = ''blue'', exported = True, fvalue = VUint8 7\<rparr>])"
    by (simp add: ReadNext_full_record [OF h1 h2 h3 h4 h5] s)
       (simp add: vertex_def body_def Point_def decode_eval PointByteSize_def)
  from ReadNext_stores_same_type [OF h1 h2 h3 h4 h5 refl refl h8]
  have "\<exists>fs'. ReadNext ?r ?f (StructPtr Point) =
          Inr (Inr (pos ?r + 1), ?r\<lparr>pos := pos ?r + 1\<rparr>,
               ?f\<lparr>fpos := nat (sint (0 :: int64)) + PointByteSize vertex\<rparr>, StructPtr fs')"
    by blast
  with h8 ev show ?thesis by blast
qed

text \<open>
  The claim as stated fails: the property \<open>red\<close> is one unsigned byte, the field tagged
  \<open>red\<close> is a \<open>uint32\<close>, and the call panics in \<open>Value.Set\<close> instead of widening the value.
\<close>

theorem ReadNext_widening_counterexample:
  "ReadNext \<lparr>pos = 0, roffset = 0,
             relement = Some \<lparr>Name = ''vertex'', Count = 1, Properties =
                                [\<lparr>Type = ''uchar'', PName = ''red'', Size = 1\<rparr>]\<rparr>\<rparr>
            \<lparr>content = [CHR 0xFF], fpos = 0\<rparr>
            (StructPtr [\<lparr>tag = ''red'', exported = True, fvalue = VUint32 0\<rparr>]) =
   Inl SetNotAssignable"
  by (simp add: read_eval)

section \<open>Sequential reading and reading at a position\<close>

lemma bound_Cons:
  "bound (p # ps) tg \<longleftrightarrow> (PName p = tg \<and> scalar_case (Type p) \<noteq> None) \<or> bound ps tg"
  by (auto simp: bound_def)

lemma store_field_same_shape:
  assumes "same_shape f g" and "scalar_case (Type p) \<noteq> None"
  shows "store_field p buf off f = store_field p buf off g"
proof -
  from assms(1) have "f\<lparr>fvalue := v\<rparr> = g\<lparr>fvalue := v\<rparr>" for v
    by (cases f, cases g) (simp add: same_shape_def)
  with assms show ?thesis
    by (auto simp: store_field_def reflect_Set_def same_shape_def split: sum.splits option.splits)
qed

lemma store_field_unknown: "scalar_case (Type p) = None \<Longrightarrow> store_field p buf off f = Inr f"
  by (simp add: store_field_def)

lemma store_field_same_shape_result:
  "store_field p buf off f = Inr f' \<Longrightarrow> same_shape f' f"
  by (auto simp: store_field_def reflect_Set_def same_shape_def
      split: sum.splits option.splits if_splits)

lemma set_fields_agree:
  "agree (p # ps) fs gs \<Longrightarrow>
   (\<exists>e. set_fields p buf off fs = Inl e \<and> set_fields p buf off gs = Inl e)
   \<or> (\<exists>fs' gs'. set_fields p buf off fs = Inr fs' \<and> set_fields p buf off gs = Inr gs'
         \<and> agree ps fs' gs')"
  unfolding agree_def
proof (induction rule: list_all2_induct)
  case Nil
  then show ?case by simp
next
  case (Cons f fs g gs)
  from Cons.hyps(1) have sh: "same_shape f g"
    and eq: "\<not> bound (p # ps) (tag f) \<Longrightarrow> f = g" by auto
  from sh have tg: "tag f = tag g" by (simp add: same_shape_def)
  define hf where "hf = (if tag f = PName p then store_field p buf off f else Inr f)"
  define hg where "hg = (if tag g = PName p then store_field p buf off g else Inr g)"
  have head: "(\<exists>e. hf = Inl e \<and> hg = Inl e)
     \<or> (\<exists>f' g'. hf = Inr f' \<and> hg = Inr g'
           \<and> same_shape f' g' \<and> (\<not> bound ps (tag f') \<longrightarrow> f' = g'))"
  proof (cases "tag f = PName p \<and> scalar_case (Type p) \<noteq> None")
    case True
    then have same: "hf = hg"
      using store_field_same_shape [OF sh, of p buf off] tg by (simp add: hf_def hg_def)
    show ?thesis
    proof (cases hf)
      case (Inl e)
      with same have "hg = Inl e" by simp
      with Inl show ?thesis by blast
    next
      case (Inr f')
      with same have "hg = Inr f'" by simp
      moreover have "same_shape f' f'" by (simp add: same_shape_def)
      ultimately show ?thesis using Inr by blast
    qed
  next
    case False
    then have a: "hf = Inr f" "hg = Inr g"
      using tg by (auto simp: store_field_unknown hf_def hg_def)
    from False have "bound (p # ps) (tag f) = bound ps (tag f)"
      by (auto simp: bound_Cons)
    with eq sh a show ?thesis by auto
  qed
  have unf: "set_fields p buf off (f # fs) =
      (case hf of Inl e \<Rightarrow> Inl e
       | Inr f' \<Rightarrow> (case set_fields p buf off fs of Inl e \<Rightarrow> Inl e | Inr fs' \<Rightarrow> Inr (f' # fs')))"
    "set_fields p buf off (g # gs) =
      (case hg of Inl e \<Rightarrow> Inl e
       | Inr g' \<Rightarrow> (case set_fields p buf off gs of Inl e \<Rightarrow> Inl e | Inr gs' \<Rightarrow> Inr (g' # gs')))"
    by (simp_all add: hf_def hg_def)
  from head Cons.IH show ?case
    unfolding unf by (elim disjE exE conjE) simp_all
qed

lemma agree_Nil: "agree [] fs gs \<Longrightarrow> fs = gs"
  by (simp add: agree_def bound_def list_all2_conv_all_nth nth_equalityI)

lemma decode_props_agree:
  "agree ps fs gs \<Longrightarrow>
   decode_props ps buf off (StructPtr fs) = decode_props ps buf off (StructPtr gs)"
proof (induction ps arbitrary: fs gs off)
  case Nil
  then show ?case by (simp add: agree_Nil)
next
  case (Cons p ps)
  from set_fields_agree [OF Cons.prems, of buf off] show ?case
  proof (elim disjE exE conjE)
    fix e assume "set_fields p buf off fs = Inl e" "set_fields p buf off gs = Inl e"
    then show ?thesis by simp
  next
    fix fs' gs'
    assume "set_fields p buf off fs = Inr fs'" "set_fields p buf off gs = Inr gs'"
      "agree ps fs' gs'"
    with Cons.IH [of fs' gs' "off + Size p"] show ?thesis by simp
  qed
qed

lemma decode_props_OtherPtr: "decode_props ps buf off OtherPtr = Inr OtherPtr"
  by (induction ps arbitrary: off) simp_all

lemma decode_props_tagree:
  "tagree ps t t' \<Longrightarrow> decode_props ps buf off t = decode_props ps buf off t'"
  by (cases t; cases t') (simp_all add: decode_props_agree)

lemma set_fields_changes:
  "set_fields p buf off fs = Inr fs' \<Longrightarrow>
   list_all2 (\<lambda>f' f. same_shape f' f \<and>
                (\<not> (tag f = PName p \<and> scalar_case (Type p) \<noteq> None) \<longrightarrow> f' = f)) fs' fs"
proof (induction fs arbitrary: fs')
  case Nil
  then show ?case by simp
next
  case (Cons f fs)
  from Cons.prems obtain f1 fs1 where
    f1: "(if tag f = PName p then store_field p buf off f else Inr f) = Inr f1"
    and fs1: "set_fields p buf off fs = Inr fs1" and fs': "fs' = f1 # fs1"
    by (auto split: sum.splits)
  from f1 have "same_shape f1 f"
    by (auto simp: same_shape_def dest: store_field_same_shape_result split: if_splits)
  moreover from f1 have "\<not> (tag f = PName p \<and> scalar_case (Type p) \<noteq> None) \<Longrightarrow> f1 = f"
    by (auto simp: store_field_unknown split: if_splits)
  ultimately show ?case using Cons.IH [OF fs1] fs' by auto
qed

lemma decode_props_result_agree:
  "decode_props ps buf off (StructPtr fs) = Inr t1 \<Longrightarrow>
   \<exists>fs1. t1 = StructPtr fs1 \<and> agree ps fs1 fs"
proof (induction ps arbitrary: fs off)
  case Nil
  then show ?case
    by (auto simp: agree_def same_shape_def list_all2_conv_all_nth)
next
  case (Cons p ps)
  from Cons.prems obtain fs' where fs': "set_fields p buf off fs = Inr fs'"
    and rest: "decode_props ps buf (off + Size p) (StructPtr fs') = Inr t1"
    by (auto split: sum.splits)
  from Cons.IH [OF rest] obtain fs1 where t1: "t1 = StructPtr fs1" and ag: "agree ps fs1 fs'"
    by auto
  have "agree (p # ps) fs1 fs"
    unfolding agree_def
  proof (rule list_all2_trans [OF _ ag [unfolded agree_def] set_fields_changes [OF fs']])
    fix a b c
    assume ab: "same_shape a b \<and> (\<not> bound ps (tag a) \<longrightarrow> a = b)"
      and bc: "same_shape b c \<and> (\<not> (tag c = PName p \<and> scalar_case (Type p) \<noteq> None) \<longrightarrow> b = c)"
    from ab bc have tags: "tag a = tag b" "tag b = tag c" by (simp_all add: same_shape_def)
    from ab bc have "same_shape a c" by (simp add: same_shape_def)
    moreover have "a = c" if "\<not> bound (p # ps) (tag a)"
    proof -
      from that have "\<not> bound ps (tag a)"
        and "\<not> (tag c = PName p \<and> scalar_case (Type p) \<noteq> None)"
        using tags by (auto simp: bound_Cons)
      with ab bc show ?thesis by simp
    qed
    ultimately show "same_shape a c \<and> (\<not> bound (p # ps) (tag a) \<longrightarrow> a = c)" by blast
  qed
  with t1 show ?case by simp
qed

lemma decode_props_result_tagree:
  "decode_props ps buf off t = Inr t1 \<Longrightarrow> tagree ps t1 t"
  by (cases t) (auto simp: decode_props_OtherPtr dest: decode_props_result_agree)

lemma sint_of_nat_int64: "int k < 2 ^ 63 \<Longrightarrow> sint (of_nat k :: int64) = int k"
  by (simp add: signed_of_nat signed_take_bit_int_eq_self)

lemma sint_int64_less: "sint (w :: int64) < 2 ^ 63"
  using sint_lt [of w] by simp

lemma osfile_seek_same:
  "content f1 = content f2 \<Longrightarrow> f1\<lparr>fpos := a\<rparr> = f2\<lparr>fpos := a\<rparr>" for f1 f2 :: osfile
  by (cases f1, cases f2) simp

lemma file_Read_content: "content (snd (file_Read f k)) = content f"
  by (simp add: file_Read_def)

lemma ReadNext_same_source:
  assumes e: "relement r = Some e"
    and c: "content f1 = content f2"
    and t: "tagree (Properties e) t1 t2"
  shows "(\<exists>pn. ReadNext r f1 t1 = Inl pn \<and> ReadNext r f2 t2 = Inl pn)
       \<or> (\<exists>err g1 g2. ReadNext r f1 t1 = Inr (Inl err, r, g1, t1)
             \<and> ReadNext r f2 t2 = Inr (Inl err, r, g2, t2))
       \<or> (\<exists>g t'. ReadNext r f1 t1 = Inr (Inr (pos r + 1), r\<lparr>pos := pos r + 1\<rparr>, g, t')
             \<and> ReadNext r f2 t2 = Inr (Inr (pos r + 1), r\<lparr>pos := pos r + 1\<rparr>, g, t')
             \<and> content g = content f2 \<and> tagree (Properties e) t' t2)"
proof (cases "file_Seek f2 (roffset r + pos r * of_nat (PointByteSize e))")
  case (Inl err)
  then have "file_Seek f1 (roffset r + pos r * of_nat (PointByteSize e)) = Inl err"
    by (simp add: file_Seek_def split: if_splits)
  with Inl e show ?thesis by (simp add: ReadNext_def)
next
  case (Inr g)
  then have g1: "file_Seek f1 (roffset r + pos r * of_nat (PointByteSize e)) = Inr g"
    using osfile_seek_same [OF c] by (simp add: file_Seek_def split: if_splits)
  from Inr have cg: "content g = content f2"
    by (auto simp: file_Seek_def split: if_splits)
  show ?thesis
  proof (cases "sint (Count e) \<le> sint (pos r)")
    case True
    with Inr g1 e show ?thesis by (simp add: ReadNext_def)
  next
    case False
    obtain res g' where rd: "file_Read g (PointByteSize e) = (res, g')"
      by (cases "file_Read g (PointByteSize e)")
    from file_Read_content [of g "PointByteSize e"] rd cg have cg': "content g' = content f2"
      by simp
    define buf where "buf = (case res of Inl err \<Rightarrow> replicate (PointByteSize e) (CHR 0x00)
      | Inr bs \<Rightarrow> bs @ replicate (PointByteSize e - length bs) (CHR 0x00))"
    show ?thesis
    proof (cases "res = Inl EOF")
      case True
      with Inr g1 e False rd show ?thesis by (simp add: ReadNext_def)
    next
      case notEOF: False
      have r1: "ReadNext r f1 t1 =
          (case decode_props (Properties e) buf 0 t1 of Inl pn \<Rightarrow> Inl pn
           | Inr t' \<Rightarrow> Inr (Inr (pos r + 1), r\<lparr>pos := pos r + 1\<rparr>, g', t'))"
        using g1 e False rd notEOF by (cases res) (simp_all add: ReadNext_def buf_def)
      have r2: "ReadNext r f2 t2 =
          (case decode_props (Properties e) buf 0 t2 of Inl pn \<Rightarrow> Inl pn
           | Inr t' \<Rightarrow> Inr (Inr (pos r + 1), r\<lparr>pos := pos r + 1\<rparr>, g', t'))"
        using Inr e False rd notEOF by (cases res) (simp_all add: ReadNext_def buf_def)
      from decode_props_tagree [OF t] have same:
        "decode_props (Properties e) buf 0 t1 = decode_props (Properties e) buf 0 t2" .
      show ?thesis
      proof (cases "decode_props (Properties e) buf 0 t2")
        case (Inl pn)
        with same r1 r2 show ?thesis by simp
      next
        case (Inr t')
        from decode_props_result_tagree [OF Inr] have "tagree (Properties e) t' t2" .
        with Inr same r1 r2 cg' show ?thesis by simp
      qed
    qed
  qed
qed

lemma tagree_refl: "tagree ps t t"
  by (cases t) (simp_all add: agree_def same_shape_def list_all2_conv_all_nth)

lemma next_n_eq_at_n:
  assumes e: "relement r = Some e"
  shows "int k + int m \<le> sint (Count e) \<Longrightarrow> content f1 = content f2 \<Longrightarrow>
         tagree (Properties e) t t0 \<Longrightarrow>
         next_n m (r\<lparr>pos := of_nat k\<rparr>) f1 t = at_n m k r f2 t0"
proof (induction m arbitrary: k f1 f2 t)
  case 0
  show ?case by simp
next
  case (Suc m)
  let ?r1 = "r\<lparr>pos := of_nat k\<rparr>"
  from Suc.prems(1) sint_int64_less [of "Count e"] have k: "int k < 2 ^ 63" by simp
  then have sk: "sint (of_nat k :: int64) = int k" by (rule sint_of_nat_int64)
  from Suc.prems(1) sk have seek: "Seek r (of_nat k) = Inr (None, ?r1)"
    by (simp add: Seek_def e)
  have e1: "relement ?r1 = Some e" by (simp add: e)
  have undo: "?r1\<lparr>pos := pos ?r1 + 1\<rparr>\<lparr>pos := pos r\<rparr> = r" by simp
  have fwd: "?r1\<lparr>pos := pos ?r1 + 1\<rparr> = r\<lparr>pos := of_nat (Suc k)\<rparr>" by simp
  from ReadNext_same_source [OF e1 Suc.prems(2) Suc.prems(3)] show ?case
  proof (elim disjE exE conjE)
    fix pn assume "ReadNext ?r1 f1 t = Inl pn" "ReadNext ?r1 f2 t0 = Inl pn"
    then show ?thesis by (simp add: ReadAt_def seek)
  next
    fix err g1 g2
    assume "ReadNext ?r1 f1 t = Inr (Inl err, ?r1, g1, t)"
      "ReadNext ?r1 f2 t0 = Inr (Inl err, ?r1, g2, t0)"
    then show ?thesis by (simp add: ReadAt_def seek)
  next
    fix g t'
    assume a: "ReadNext ?r1 f1 t = Inr (Inr (pos ?r1 + 1), ?r1\<lparr>pos := pos ?r1 + 1\<rparr>, g, t')"
      and b: "ReadNext ?r1 f2 t0 = Inr (Inr (pos ?r1 + 1), ?r1\<lparr>pos := pos ?r1 + 1\<rparr>, g, t')"
      and cg: "content g = content f2" and tg: "tagree (Properties e) t' t0"
    from Suc.prems(1) have "int (Suc k) + int m \<le> sint (Count e)" by simp
    from Suc.IH [OF this refl tg, of g]
    have ih: "next_n m (r\<lparr>pos := of_nat (Suc k)\<rparr>) g t' = at_n m (Suc k) r g t0" .
    have "next_n (Suc m) ?r1 f1 t = Inr (Inr t') # next_n m (r\<lparr>pos := of_nat (Suc k)\<rparr>) g t'"
      using a by (simp add: add.commute)
    moreover have "at_n (Suc m) k r f2 t0 = Inr (Inr t') # at_n m (Suc k) r g t0"
      using b undo by (simp add: ReadAt_def seek add.commute)
    ultimately show ?thesis using ih by simp
  qed
qed

text \<open>
  C6. For a reader of an element with count \<open>n\<close> over a source with fixed bytes: \<open>Reset\<close>
  succeeds and sets the cursor to 0, and \<open>n\<close> calls of \<open>ReadNext\<close> on one target \<open>t\<close> after
  it produce the same sequence as the calls \<open>ReadAt 0\<close>, ..., \<open>ReadAt (n - 1)\<close>, each on a
  target equal to \<open>t\<close>: the same decoded targets, and the same failure at the same place if
  a call fails. Where the shared handle stands when either pass begins (\<open>f1\<close> and \<open>f2\<close> have
  the same bytes but any positions) and where the reader's cursor was make no difference,
  since every read repositions the handle first.
\<close>

theorem sequential_reads_equal_reads_at:
  assumes "relement r = Some e" and "0 \<le> sint (Count e)" and "n = nat (sint (Count e))"
    and "content f1 = content f2"
  shows "Reset r = Inr (None, r\<lparr>pos := 0\<rparr>)
       \<and> next_n n (r\<lparr>pos := 0\<rparr>) f1 t = at_n n 0 r f2 t"
proof
  from assms show "Reset r = Inr (None, r\<lparr>pos := 0\<rparr>)"
    by (simp add: Reset_def Seek_def)
  from assms(2,3) have "int 0 + int n \<le> sint (Count e)" by simp
  from next_n_eq_at_n [OF assms(1) this assms(4) tagree_refl, of t]
  show "next_n n (r\<lparr>pos := 0\<rparr>) f1 t = at_n n 0 r f2 t" by simp
qed

text \<open>
  The two records of the sample body, read both ways: the sequential pass with the handle
  somewhere inside the first record, the pass by position with the handle at the end of
  the source, where a sequential pass leaves it.
\<close>

theorem sequential_reads_equal_reads_at_witness:
  "0 \<le> sint (Count vertex)
   \<and> content \<lparr>content = body, fpos = 13\<rparr> = content \<lparr>content = body, fpos = 54\<rparr>
   \<and> next_n 2 (\<lparr>pos = 1, roffset = 0, relement = Some vertex\<rparr>\<lparr>pos := 0\<rparr>)
        \<lparr>content = body, fpos = 13\<rparr> (StructPtr Point) =
     at_n 2 0 \<lparr>pos = 1, roffset = 0, relement = Some vertex\<rparr>
        \<lparr>content = body, fpos = 54\<rparr> (StructPtr Point)
   \<and> next_n 2 (\<lparr>pos = 1, roffset = 0, relement = Some vertex\<rparr>\<lparr>pos := 0\<rparr>)
        \<lparr>content = body, fpos = 13\<rparr> (StructPtr Point) =
       [Inr (Inr (StructPtr
                 [\<lparr>tag = ''x'', exported = True, fvalue = VFloat64 0x3FF0000000000000\<rparr>,
                  \<lparr>tag = ''y'', exported = True, fvalue = VFloat64 0x4000000000000000\<rparr>,
                  \<lparr>tag = ''z'', exported = True, fvalue = VFloat64 0xBFF0000000000000\<rparr>,
                  \<lparr>tag = ''red'', exported = True, fvalue = VUint8 0xFF\<rparr>,
                  \<lparr>tag = ''green'', exported = True, fvalue = VUint8 0x80\<rparr>,
                  \<lparr>tag = ''blue'', exported = True, fvalue = VUint8 7\<rparr>])),
        Inr (Inr (StructPtr
                 [\<lparr>tag = ''x'', exported = True, fvalue = VFloat64 0x3FE0000000000000\<rparr>,
                  \<lparr>tag = ''y'', exported = True, fvalue = VFloat64 0\<rparr>,
                  \<lparr>tag = ''z'', exported = True, fvalue = VFloat64 0x4008000000000000\<rparr>,
                  \<lparr>tag = ''red'', exported = True, fvalue = VUint8 1\<rparr>,
                  \<lparr>tag = ''green'', exported = True, fvalue = VUint8 2\<rparr>,
                  \<lparr>tag = ''blue'', exported = True, fvalue = VUint8 3\<rparr>]))]
   \<and> at_n 2 0 \<lparr>pos = 1, roffset = 0, relement = Some vertex\<rparr>
        \<lparr>content = body, fpos = 54\<rparr> (StructPtr Point) =
       [Inr (Inr (StructPtr
                 [\<lparr>tag = ''x'', exported = True, fvalue = VFloat64 0x3FF0000000000000\<rparr>,
                  \<lparr>tag = ''y'', exported = True, fvalue = VFloat64 0x4000000000000000\<rparr>,
                  \<lparr>tag = ''z'', exported = True, fvalue = VFloat64 0xBFF0000000000000\<rparr>,
                  \<lparr>tag = ''red'', exported = True, fvalue = VUint8 0xFF\<rparr>,
                  \<lparr>tag = ''green'', exported = True, fvalue = VUint8 0x80\<rparr>,
                  \<lparr>tag = ''blue'', exported = True, fvalue = VUint8 7\<rparr>])),
        Inr (Inr (StructPtr
                 [\<lparr>tag = ''x'', exported = True, fvalue = VFloat64 0x3FE0000000000000\<rparr>,
                  \<lparr>tag = ''y'', exported = True, fvalue = VFloat64 0\<rparr>,
                  \<lparr>tag = ''z'', exported = True, fvalue = VFloat64 0x4008000000000000\<rparr>,
                  \<lparr>tag = ''red'', exported = True, fvalue = VUint8 1\<rparr>,
                  \<lparr>tag = ''green'', exported = True, fvalue = VUint8 2\<rparr>,
                  \<lparr>tag = ''blue'', exported = True, fvalue = VUint8 3\<rparr>]))]"
proof -
  let ?r = "\<lparr>pos = 1, roffset = 0, relement = Some vertex\<rparr>"
  have h1: "relement ?r = Some vertex" by simp
  have h2: "0 \<le> sint (Count vertex)" by (simp add: vertex_def)
  have h3: "(2 :: nat) = nat (sint (Count vertex))" by (simp add: vertex_def)
  have h4: "content \<lparr>content = body, fpos = 13\<rparr> = content \<lparr>content = body, fpos = 54\<rparr>"
    by simp
  have s: "PointByteSize vertex = 27" by (simp add: PointByteSize_def vertex_def)
  have c: "Count vertex = 2" by (simp add: vertex_def)
  have l: "length body = 54" by (simp add: body_def)
  have d1: "decode_props (Properties vertex) (take 27 body) 0 (StructPtr Point) =
     Inr (StructPtr
                 [\<lparr>tag = ''x'', exported = True, fvalue = VFloat64 0x3FF0000000000000\<rparr>,
                  \<lparr>tag = ''y'', exported = True, fvalue = VFloat64 0x4000000000000000\<rparr>,
                  \<lparr>tag = ''z'', exported = True, fvalue = VFloat64 0xBFF0000000000000\<rparr>,
                  \<lparr>tag = ''red'', exported = True, fvalue = VUint8 0xFF\<rparr>,
                  \<lparr>tag = ''green'', exported = True, fvalue = VUint8 0x80\<rparr>,
                  \<lparr>tag = ''blue'', exported = True, fvalue = VUint8 7\<rparr>])"
    by (simp add: vertex_def body_def Point_def decode_eval)
  have d2: "decode_props (Properties vertex) (drop 27 body) 0 (StructPtr Point) =
     Inr (StructPtr
                 [\<lparr>tag = ''x'', exported = True, fvalue = VFloat64 0x3FE0000000000000\<rparr>,
                  \<lparr>tag = ''y'', exported = True, fvalue = VFloat64 0\<rparr>,
                  \<lparr>tag = ''z'', exported = True, fvalue = VFloat64 0x4008000000000000\<rparr>,
                  \<lparr>tag = ''red'', exported = True, fvalue = VUint8 1\<rparr>,
                  \<lparr>tag = ''green'', exported = True, fvalue = VUint8 2\<rparr>,
                  \<lparr>tag = ''blue'', exported = True, fvalue = VUint8 3\<rparr>])"
    by (simp add: vertex_def body_def Point_def decode_eval)
  have d3: "decode_props (Properties vertex) (drop 27 body) 0
              (StructPtr
                 [\<lparr>tag = ''x'', exported = True, fvalue = VFloat64 0x3FF0000000000000\<rparr>,
                  \<lparr>tag = ''y'', exported = True, fvalue = VFloat64 0x4000000000000000\<rparr>,
                  \<lparr>tag = ''z'', exported = True, fvalue = VFloat64 0xBFF0000000000000\<rparr>,
                  \<lparr>tag = ''red'', exported = True, fvalue = VUint8 0xFF\<rparr>,
                  \<lparr>tag = ''green'', exported = True, fvalue = VUint8 0x80\<rparr>,
                  \<lparr>tag = ''blue'', exported = True, fvalue = VUint8 7\<rparr>]) =
     Inr (StructPtr
                 [\<lparr>tag = ''x'', exported = True, fvalue = VFloat64 0x3FE0000000000000\<rparr>,
                  \<lparr>tag = ''y'', exported = True, fvalue = VFloat64 0\<rparr>,
                  \<lparr>tag = ''z'', exported = True, fvalue = VFloat64 0x4008000000000000\<rparr>,
                  \<lparr>tag = ''red'', exported = True, fvalue = VUint8 1\<rparr>,
                  \<lparr>tag = ''green'', exported = True, fvalue = VUint8 2\<rparr>,
                  \<lparr>tag = ''blue'', exported = True, fvalue = VUint8 3\<rparr>])"
    by (simp add: vertex_def body_def decode_eval)
  have ev1: "next_n 2 (?r\<lparr>pos := 0\<rparr>) \<lparr>content = body, fpos = 13\<rparr> (StructPtr Point) =
       [Inr (Inr (StructPtr
                 [\<lparr>tag = ''x'', exported = True, fvalue = VFloat64 0x3FF0000000000000\<rparr>,
                  \<lparr>tag = ''y'', exported = True, fvalue = VFloat64 0x4000000000000000\<rparr>,
                  \<lparr>tag = ''z'', exported = True, fvalue = VFloat64 0xBFF0000000000000\<rparr>,
                  \<lparr>tag = ''red'', exported = True, fvalue = VUint8 0xFF\<rparr>,
                  \<lparr>tag = ''green'', exported = True, fvalue = VUint8 0x80\<rparr>,
                  \<lparr>tag = ''blue'', exported = True, fvalue = VUint8 7\<rparr>])),
        Inr (Inr (StructPtr
                 [\<lparr>tag = ''x'', exported = True, fvalue = VFloat64 0x3FE0000000000000\<rparr>,
                  \<lparr>tag = ''y'', exported = True, fvalue = VFloat64 0\<rparr>,
                  \<lparr>tag = ''z'', exported = True, fvalue = VFloat64 0x4008000000000000\<rparr>,
                  \<lparr>tag = ''red'', exported = True, fvalue = VUint8 1\<rparr>,
                  \<lparr>tag = ''green'', exported = True, fvalue = VUint8 2\<rparr>,
                  \<lparr>tag = ''blue'', exported = True, fvalue = VUint8 3\<rparr>]))]"
    by (simp add: numeral_2_eq_2 c ReadNext_def file_Seek_def file_Read_def s l d1 d3)
  have ev2: "at_n 2 0 ?r \<lparr>content = body, fpos = 54\<rparr> (StructPtr Point) =
       [Inr (Inr (StructPtr
                 [\<lparr>tag = ''x'', exported = True, fvalue = VFloat64 0x3FF0000000000000\<rparr>,
                  \<lparr>tag = ''y'', exported = True, fvalue = VFloat64 0x4000000000000000\<rparr>,
                  \<lparr>tag = ''z'', exported = True, fvalue = VFloat64 0xBFF0000000000000\<rparr>,
                  \<lparr>tag = ''red'', exported = True, fvalue = VUint8 0xFF\<rparr>,
                  \<lparr>tag = ''green'', exported = True, fvalue = VUint8 0x80\<rparr>,
                  \<lparr>tag = ''blue'', exported = True, fvalue = VUint8 7\<rparr>])),
        Inr (Inr (StructPtr
                 [\<lparr>tag = ''x'', exported = True, fvalue = VFloat64 0x3FE0000000000000\<rparr>,
                  \<lparr>tag = ''y'', exported = True, fvalue = VFloat64 0\<rparr>,
                  \<lparr>tag = ''z'', exported = True, fvalue = VFloat64 0x4008000000000000\<rparr>,
                  \<lparr>tag = ''red'', exported = True, fvalue = VUint8 1\<rparr>,
                  \<lparr>tag = ''green'', exported = True, fvalue = VUint8 2\<rparr>,
                  \<lparr>tag = ''blue'', exported = True, fvalue = VUint8 3\<rparr>]))]"
    by (simp add: numeral_2_eq_2 ReadAt_def Seek_def c ReadNext_def file_Seek_def file_Read_def
        s l d1 d2)
  from sequential_reads_equal_reads_at [OF h1 h2 h3 h4, of "StructPtr Point"]
  have "next_n 2 (?r\<lparr>pos := 0\<rparr>) \<lparr>content = body, fpos = 13\<rparr> (StructPtr Point) =
     at_n 2 0 ?r \<lparr>content = body, fpos = 54\<rparr> (StructPtr Point)"
    by blast
  with h2 h4 ev1 ev2 show ?thesis by blast
qed

end
